theory Spec2Isabelle
  imports Complex_Main "HOL-Library.Char_ord" "HOL-Library.List_Lexorder"
begin

section \<open>Tile identifiers (download\_data.py, \<open>tile_code\<close> inside \<open>download_srtm_tiles\<close>)\<close>

text \<open>
  Python formats \<open>abs(lat_sw)\<close> with \<open>:02d\<close> and \<open>abs(lon_sw)\<close> with \<open>:03d\<close>:
  the decimal digits of the number, padded on the left with zeros up to the width and
  never truncated.
\<close>

definition digit_char :: "nat \<Rightarrow> char" where
  "digit_char d = ''0123456789'' ! d"

function dec_str :: "nat \<Rightarrow> string" where
  "dec_str n = (if n < 10 then [digit_char n] else dec_str (n div 10) @ [digit_char (n mod 10)])"
  by pat_completeness auto
termination
  by (relation "measure id") auto

declare dec_str.simps [simp del]

definition zpad :: "nat \<Rightarrow> nat \<Rightarrow> string" where
  "zpad w n = replicate (w - length (dec_str n)) (CHR ''0'') @ dec_str n"

text \<open>
  \<open>tile_code(lat_sw, lon_sw)\<close>: hemisphere letters chosen by the sign (zero is north and
  east), then the padded magnitudes.
\<close>

definition tile_code :: "int \<Rightarrow> int \<Rightarrow> string" where
  "tile_code lat_sw lon_sw =
     (let ns = (if lat_sw \<ge> 0 then CHR ''N'' else CHR ''S'');
          ew = (if lon_sw \<ge> 0 then CHR ''E'' else CHR ''W'')
      in [ns] @ zpad 2 (nat \<bar>lat_sw\<bar>) @ [ew] @ zpad 3 (nat \<bar>lon_sw\<bar>))"

text \<open>
  The decoder below reads a token the way the specification describes it: a hemisphere
  letter, two digits, a hemisphere letter, three digits; the letters give the signs and
  the digits the magnitudes. \<open>create_geotiff_from_hgt\<close> in process\_data.py reads a tile's
  name at the same positions (\<open>name[0]\<close>, \<open>name[1:3]\<close>, \<open>name[3]\<close>, \<open>name[4:7]\<close>).
\<close>

definition digit_val :: "char \<Rightarrow> nat option" where
  "digit_val c = (let k = (of_char c :: nat) in if 48 \<le> k \<and> k \<le> 57 then Some (k - 48) else None)"

definition spec_decode_tile :: "string \<Rightarrow> (int \<times> int) option" where
  "spec_decode_tile s =
     (case s of
        [ns, a, b, ew, c, d, e] \<Rightarrow>
          (case (digit_val a, digit_val b, digit_val c, digit_val d, digit_val e) of
             (Some a', Some b', Some c', Some d', Some e') \<Rightarrow>
               (if (ns = CHR ''N'' \<or> ns = CHR ''S'') \<and> (ew = CHR ''E'' \<or> ew = CHR ''W'')
                then Some ((if ns = CHR ''N'' then 1 else -1) * int (10 * a' + b'),
                           (if ew = CHR ''E'' then 1 else -1) * int (100 * c' + 10 * d' + e'))
                else None)
           | _ \<Rightarrow> None)
      | _ \<Rightarrow> None)"

definition tile_range :: "int \<Rightarrow> int \<Rightarrow> bool" where
  "tile_range la lo \<longleftrightarrow> -90 \<le> la \<and> la \<le> 89 \<and> -180 \<le> lo \<and> lo \<le> 179"

section \<open>Tile grid planning (\<open>download_srtm_tiles\<close>, the corner plan and the full range)\<close>

text \<open>
  \<open>total_bounds\<close> is \<open>(minx, miny, maxx, maxy)\<close> in degrees. The source computes with
  binary floating point; the model computes with exact real numbers, so \<open>1e-9\<close> is
  \<open>1 / 10^9\<close> and the subtraction is not rounded. The coordinates of \<open>thin_box\<close> below
  are dyadic rationals, which a double holds exactly, and the floors taken of them are far
  from the rounding error of one subtraction.
\<close>

type_synonym bbox = "real \<times> real \<times> real \<times> real"

definition eps :: real where
  "eps = 1 / 1000000000"

text \<open>
  \<open>lat_sw = {floor(miny), floor(maxy - 1e-9)}\<close> and the same for the longitudes are Python
  sets; \<open>codes = sorted({tile_code(la, lo) for la in lat_sw for lo in lon_sw})\<close> is the
  sorted list of the distinct codes.
\<close>

definition corner_codes :: "bbox \<Rightarrow> string list" where
  "corner_codes box =
     (case box of (minx, miny, maxx, maxy) \<Rightarrow>
        let lat_sw = remdups [\<lfloor>miny\<rfloor>, \<lfloor>maxy - eps\<rfloor>];
            lon_sw = remdups [\<lfloor>minx\<rfloor>, \<lfloor>maxx - eps\<rfloor>]
        in sort (remdups (concat (map (\<lambda>la. map (\<lambda>lo. tile_code la lo) lon_sw) lat_sw))))"

text \<open>
  The second attempt: \<open>range(math.floor(minx), math.ceil(maxx) + 1)\<close> is the integers from
  the floor to the ceiling, both included.
\<close>

definition full_codes :: "bbox \<Rightarrow> string list" where
  "full_codes box =
     (case box of (minx, miny, maxx, maxy) \<Rightarrow>
        let full_lons = [\<lfloor>minx\<rfloor> .. \<lceil>maxx\<rceil>];
            full_lats = [\<lfloor>miny\<rfloor> .. \<lceil>maxy\<rceil>]
        in sort (remdups (concat (map (\<lambda>la. map (\<lambda>lo. tile_code la lo) full_lons) full_lats))))"

text \<open>
  A box lies in one degree cell when it does not reach beyond the cell that holds its
  south-west corner.
\<close>

definition in_one_cell :: "bbox \<Rightarrow> bool" where
  "in_one_cell box =
     (case box of (minx, miny, maxx, maxy) \<Rightarrow>
        minx \<le> maxx \<and> miny \<le> maxy \<and>
        maxx \<le> of_int \<lfloor>minx\<rfloor> + 1 \<and> maxy \<le> of_int \<lfloor>miny\<rfloor> + 1)"

text \<open>
  A box less than \<open>1e-9\<close> degrees high, strictly inside the cell whose south-west corner
  is 34 S, 72 W, and an ordinary small box in the cell of 35 S, 72 W.
\<close>

definition thin_box :: bbox where
  "thin_box = (-143 / 2, -34 + 1 / 4294967296, -285 / 4, -34 + 1 / 2147483648)"

definition small_box :: bbox where
  "small_box = (- (143 / 2), - (69 / 2), - (357 / 5), - (172 / 5))"


section \<open>The downloader's world\<close>

text \<open>
  A boundary is a GeoDataFrame already brought to EPSG:4326: the model keeps its number of
  rows (\<open>boundary.empty\<close> is \<open>nrows = 0\<close>) and its \<open>total_bounds\<close>.
\<close>

record boundary =
  nrows :: nat
  total_bounds :: bbox

text \<open>
  \<open>requests.get\<close> returns a response with a status code and a body, or raises.
\<close>

datatype response = Response nat string | Failed

datatype level = INFO | WARNING | ERROR

text \<open>
  A log record: the level, the message template of the \<open>logger\<close> call (accents dropped)
  and the values formatted into it.
\<close>

type_synonym event = "level \<times> string \<times> string list"

text \<open>
  The state the functions act on: the files of the output directory by name, the URLs
  requested so far, the log, the attribute \<open>self.boundary_gdf\<close>, and the local list
  \<open>hgt_files\<close> of \<open>download_srtm_tiles\<close>. Writing and removing a file of the
  output directory is taken to succeed.
\<close>

record world =
  files :: "string \<rightharpoonup> string"
  reqs :: "string list"
  logs :: "event list"
  boundary_gdf :: "boundary option"
  hgt_files :: "string list"

text \<open>
  What the code gets from outside. The network may answer the same URL differently over
  time, so \<open>http_get\<close> also sees the requests made before. A \<open>None\<close> stands for a raised
  exception. \<open>clip_asset\<close> stands for signing the catalog item, opening the remote raster
  and masking it with the boundary; \<open>clip_raster\<close> for opening a local raster and masking
  it; \<open>merge_rasters\<close> for \<open>rasterio.merge.merge\<close>; \<open>reproject\<close> for the bilinear
  reprojection of every band; \<open>dpa_extract\<close> for unpacking the DPA archive, choosing the
  shapefile and filtering the comuna. The stages of \<open>main\<close> outside the boundary and
  elevation pipeline are arbitrary transformers of the world.
\<close>

record env =
  http_get :: "string list \<Rightarrow> string \<Rightarrow> response"
  gunzip :: "string \<Rightarrow> string option"
  unzip :: "string \<Rightarrow> (string \<times> string) list option"
  has_geocode :: bool
  geocode :: "string \<Rightarrow> boundary option"
  to_wgs84 :: "boundary \<Rightarrow> boundary option"
  to_geojson :: "boundary \<Rightarrow> string"
  stac_search :: "bbox \<Rightarrow> string list option"
  clip_asset :: "string \<Rightarrow> boundary \<Rightarrow> string option"
  clip_raster :: "string \<Rightarrow> boundary \<Rightarrow> string option"
  merge_rasters :: "string list \<Rightarrow> string option"
  reproject :: "string \<Rightarrow> nat \<Rightarrow> string option"
  dpa_extract :: "string \<Rightarrow> string \<Rightarrow> string option"
  osm_stage :: "world \<Rightarrow> world"
  censo_stage :: "world \<Rightarrow> world"
  sentinel2_stage :: "world \<Rightarrow> world"
  minvu_stage :: "world \<Rightarrow> world"
  create_metadata :: "world \<Rightarrow> world"

definition logger :: "level \<Rightarrow> string \<Rightarrow> string list \<Rightarrow> world \<Rightarrow> world" where
  "logger lv msg args w = w\<lparr>logs := logs w @ [(lv, msg, args)]\<rparr>"

definition debug_log :: "bool \<Rightarrow> string \<Rightarrow> string list \<Rightarrow> world \<Rightarrow> world" where
  "debug_log dbg msg args w = (if dbg then logger INFO msg args w else w)"

definition write_bytes :: "string \<Rightarrow> string \<Rightarrow> world \<Rightarrow> world" where
  "write_bytes name content w = w\<lparr>files := (files w)(name \<mapsto> content)\<rparr>"

definition unlink :: "string \<Rightarrow> world \<Rightarrow> world" where
  "unlink name w = w\<lparr>files := (files w)(name := None)\<rparr>"

definition request :: "env \<Rightarrow> string \<Rightarrow> world \<Rightarrow> response \<times> world" where
  "request e url w = (http_get e (reqs w) url, w\<lparr>reqs := reqs w @ [url]\<rparr>)"

definition endswith :: "string \<Rightarrow> string \<Rightarrow> bool" where
  "endswith s suf \<longleftrightarrow> take (length suf) (rev s) = rev suf"

text \<open>
  \<open>str.lower\<close> on ASCII letters; no other character lowers to one of \<open>.hgt\<close>, which is all
  the member test looks at.
\<close>

definition ascii_lower :: "char \<Rightarrow> char" where
  "ascii_lower c =
     (let k = (of_char c :: nat) in if 65 \<le> k \<and> k \<le> 90 then char_of (k + 32) else c)"

definition lower :: "string \<Rightarrow> string" where
  "lower s = map ascii_lower s"

section \<open>Fetching tiles (\<open>download_srtm_tiles\<close>, lines 672-809)\<close>

text \<open>
  The two mirror loops of the source are the same text but for the branch of the raw
  \<open>.hgt\<close> mirror, which only the second loop has, and the wording of the log messages.
  The model has one loop with the pass as a parameter.
\<close>

datatype pass = First | Second

definition tile_urls :: "string \<Rightarrow> string list" where
  "tile_urls code =
     [''https://srtm.kurviger.de/SRTM3/'' @ code @ ''.hgt.gz'',
      ''https://dds.cr.usgs.gov/srtm/version2_1/SRTM3/South_America/'' @ code @ ''.hgt.zip'',
      ''https://srtm.kurviger.de/SRTM3/'' @ code @ ''.hgt'',
      ''https://srtmtiles.s3.amazonaws.com/'' @ code @ ''.hgt.gz'',
      ''https://s3.amazonaws.com/elevation-tiles-prod/skadi/'' @ take 3 code @ ''/'' @ code @ ''.hgt.gz'']"

text \<open>
  The format branches of one attempt, after a response with status 200. The flag is False
  when an exception leaves the \<open>try\<close> block: a body that does not decompress (the
  temporary \<open>.hgt.gz\<close> stays behind) or is not an archive (the temporary \<open>.zip\<close> stays
  behind). An archive without a \<open>.hgt\<close> member writes nothing.
\<close>

definition materialize :: "env \<Rightarrow> pass \<Rightarrow> string \<Rightarrow> string \<Rightarrow> string \<Rightarrow> world \<Rightarrow> bool \<times> world" where
  "materialize e ps code url content w =
     (if endswith url ''.gz'' then
        (let w1 = write_bytes (code @ ''.hgt.gz'') content w
         in case gunzip e content of
              None \<Rightarrow> (False, w1)
            | Some raw \<Rightarrow> (True, unlink (code @ ''.hgt.gz'') (write_bytes (code @ ''.hgt'') raw w1)))
      else if endswith url ''.zip'' then
        (let w1 = write_bytes (code @ ''.zip'') content w
         in case unzip e content of
              None \<Rightarrow> (False, w1)
            | Some members \<Rightarrow>
                (True, unlink (code @ ''.zip'')
                   (case find (\<lambda>m. endswith (lower (fst m)) ''.hgt'') members of
                      None \<Rightarrow> w1
                    | Some m \<Rightarrow> write_bytes (code @ ''.hgt'') (snd m) w1)))
      else if ps = Second \<and> endswith url ''.hgt'' then
        (True, write_bytes (code @ ''.hgt'') content w)
      else (True, w))"

text \<open>
  What the format branches write into the tile's file for a body, if they write: the
  decompressed body, the first \<open>.hgt\<close> member of the archive, or in the second pass the
  body of the raw mirror. \<open>mirror_yields\<close> is the same for a whole answer: only status 200
  gets that far.
\<close>

definition decode_body :: "env \<Rightarrow> pass \<Rightarrow> string \<Rightarrow> string \<Rightarrow> string option" where
  "decode_body e ps url content =
     (if endswith url ''.gz'' then gunzip e content
      else if endswith url ''.zip'' then
        (case unzip e content of
           None \<Rightarrow> None
         | Some members \<Rightarrow> map_option snd (find (\<lambda>m. endswith (lower (fst m)) ''.hgt'') members))
      else if ps = Second \<and> endswith url ''.hgt'' then Some content
      else None)"

definition mirror_yields :: "env \<Rightarrow> pass \<Rightarrow> string \<Rightarrow> response \<Rightarrow> string option" where
  "mirror_yields e ps url r =
     (case r of
        Failed \<Rightarrow> None
      | Response st content \<Rightarrow> if st = 200 then decode_body e ps url content else None)"

definition size_msg :: "pass \<Rightarrow> string" where
  "size_msg ps = (case ps of
       First \<Rightarrow> ''Tile {code} tamano inesperado ({size} bytes).''
     | Second \<Rightarrow> ''Tile {code} tamano inesperado ({size} bytes) segundo intento.'')"

definition done_msg :: "pass \<Rightarrow> string" where
  "done_msg ps = (case ps of
       First \<Rightarrow> ''Tile {code} descargado desde {url}''
     | Second \<Rightarrow> ''Tile {code} descargado (segundo intento) desde {url}'')"

definition try_msg :: "pass \<Rightarrow> string" where
  "try_msg ps = (case ps of
       First \<Rightarrow> ''Intentando URL tile {code}: {url}''
     | Second \<Rightarrow> ''(Segundo intento) URL tile {code}: {url}'')"

definition err_msg :: "pass \<Rightarrow> string" where
  "err_msg ps = (case ps of
       First \<Rightarrow> ''Error tile {code} con {url}: {e}''
     | Second \<Rightarrow> ''Error segundo intento tile {code} con {url}: {e}'')"

definition miss_msg :: "pass \<Rightarrow> string" where
  "miss_msg ps = (case ps of
       First \<Rightarrow> ''No se pudo descargar tile {code}''
     | Second \<Rightarrow> ''Segundo intento fallo para tile {code}'')"

text \<open>
  The body of \<open>for url in urls\<close>: the flag is True when the loop breaks with the tile
  accepted, False when it goes on with the next mirror.
\<close>

definition try_url :: "env \<Rightarrow> bool \<Rightarrow> pass \<Rightarrow> string \<Rightarrow> string \<Rightarrow> world \<Rightarrow> bool \<times> world" where
  "try_url e dbg ps code url w =
     (let (r, w2) = request e url (debug_log dbg (try_msg ps) [code, url] w)
      in case r of
           Failed \<Rightarrow> (False, debug_log dbg (err_msg ps) [code, url] w2)
         | Response st content \<Rightarrow>
             if st \<noteq> 200 then (False, debug_log dbg ''Status {status} para {url}'' [dec_str st, url] w2)
             else
               (case materialize e ps code url content w2 of
                  (False, w3) \<Rightarrow> (False, debug_log dbg (err_msg ps) [code, url] w3)
                | (True, w3) \<Rightarrow>
                    (case files w3 (code @ ''.hgt'') of
                       None \<Rightarrow> (False, w3)
                     | Some b \<Rightarrow>
                         (let w4 = (if length b < 2000000
                                    then logger WARNING (size_msg ps) [code, dec_str (length b)] w3
                                    else w3);
                              w5 = w4\<lparr>hgt_files := hgt_files w4 @ [code @ ''.hgt'']\<rparr>
                          in (True, logger INFO (done_msg ps) [code, url] w5)))))"

fun try_urls :: "env \<Rightarrow> bool \<Rightarrow> pass \<Rightarrow> string \<Rightarrow> string list \<Rightarrow> world \<Rightarrow> bool \<times> world" where
  "try_urls e dbg ps code [] w = (False, w)"
| "try_urls e dbg ps code (url # urls) w =
     (case try_url e dbg ps code url w of
        (True, w') \<Rightarrow> (True, w')
      | (False, w') \<Rightarrow> try_urls e dbg ps code urls w')"

text \<open>The body of \<open>for code in codes\<close>.\<close>

definition fetch_tile :: "env \<Rightarrow> bool \<Rightarrow> pass \<Rightarrow> string \<Rightarrow> world \<Rightarrow> world" where
  "fetch_tile e dbg ps code w =
     (if files w (code @ ''.hgt'') \<noteq> None
      then w\<lparr>hgt_files := hgt_files w @ [code @ ''.hgt'']\<rparr>
      else (case try_urls e dbg ps code (tile_urls code) w of
              (True, w') \<Rightarrow> w'
            | (False, w') \<Rightarrow> logger WARNING (miss_msg ps) [code] w'))"

definition fetch_pass :: "env \<Rightarrow> bool \<Rightarrow> pass \<Rightarrow> string list \<Rightarrow> world \<Rightarrow> world" where
  "fetch_pass e dbg ps codes w = fold (fetch_tile e dbg ps) codes w"

text \<open>
  The forced download of the tile of the box's south-west corner from the Skadi mirror.
  It keeps the tile only above 1000000 bytes and leaves the \<open>.hgt.gz\<close> in place.
\<close>

definition forced_retry :: "env \<Rightarrow> bool \<Rightarrow> bbox \<Rightarrow> world \<Rightarrow> world" where
  "forced_retry e dbg box w =
     (case box of (minx, miny, maxx, maxy) \<Rightarrow>
        let code_force = tile_code \<lfloor>miny\<rfloor> \<lfloor>minx\<rfloor>;
            w1 = logger INFO ''Forzando descarga Mapzen tile esperado: {code_force}'' [code_force] w;
            mapzen_url = ''https://s3.amazonaws.com/elevation-tiles-prod/skadi/'' @ take 3 code_force
                           @ ''/'' @ code_force @ ''.hgt.gz'';
            (r, w2) = request e mapzen_url w1
        in case r of
             Failed \<Rightarrow> debug_log dbg ''Error descarga forzada Mapzen: {e_forced}'' [] w2
           | Response st content \<Rightarrow>
               if st = 200 then
                 (let w3 = write_bytes (code_force @ ''.hgt.gz'') content w2
                  in case gunzip e content of
                       None \<Rightarrow> debug_log dbg ''Error descarga forzada Mapzen: {e_forced}'' [] w3
                     | Some raw_bytes \<Rightarrow>
                         (let w4 = write_bytes (code_force @ ''.hgt'') raw_bytes w3;
                              w5 = logger INFO ''Tile forzado {code_force} tamano {size} bytes''
                                     [code_force, dec_str (length raw_bytes)] w4
                          in if length raw_bytes > 1000000
                             then w5\<lparr>hgt_files := hgt_files w5 @ [code_force @ ''.hgt'']\<rparr>
                             else w5))
               else logger WARNING ''Mapzen forzado status {status}'' [dec_str st] w2)"


section \<open>Boundary for the elevation stages (\<open>_load_boundary_for_dem\<close>)\<close>

text \<open>
  The geometry kept in \<open>self.boundary_gdf\<close> is used when it can be brought to EPSG:4326;
  an unset attribute raises like a failed conversion does. Otherwise the comuna is
  geocoded; nothing is returned when that fails or osmnx has no \<open>geocode_to_gdf\<close>.
\<close>

definition load_boundary_for_dem :: "env \<Rightarrow> string \<Rightarrow> bool \<Rightarrow> world \<Rightarrow> boundary option \<times> world" where
  "load_boundary_for_dem e comuna dbg w =
     (case (case boundary_gdf w of None \<Rightarrow> None | Some g \<Rightarrow> to_wgs84 e g) of
        Some g \<Rightarrow> (Some g, w)
      | None \<Rightarrow>
          (let w1 = debug_log dbg ''No se pudo usar boundary_gdf para DEM: {e}'' [] w
           in if has_geocode e then
                (case (case geocode e (comuna @ '', Chile'') of
                         None \<Rightarrow> None | Some g \<Rightarrow> to_wgs84 e g) of
                   Some g \<Rightarrow> (Some g, w1)
                 | None \<Rightarrow> (None, debug_log dbg ''No se pudo geocodificar comuna para DEM: {e}'' [] w1))
              else (None, w1)))"

section \<open>Reprojection (\<open>_reproject_dem\<close>)\<close>

text \<open>\<open>Path.stem\<close>: the name without its last suffix, if it has one.\<close>

definition path_stem :: "string \<Rightarrow> string" where
  "path_stem name =
     (let suf = takeWhile (\<lambda>c. c \<noteq> CHR ''.'') (rev name)
      in if 0 < length suf \<and> length suf + 1 < length name
         then take (length name - length suf - 1) name else name)"

definition reprojected_name :: "string \<Rightarrow> nat \<Rightarrow> string" where
  "reprojected_name dem_path target_epsg = path_stem dem_path @ ''_'' @ dec_str target_epsg @ ''.tif''"

text \<open>
  The raster at \<open>dem_path\<close> is read, every band is reprojected, and the result is written
  beside it as \<open>stem_epsg.tif\<close>. \<open>None\<close> is an exception (a missing or unreadable source, or
  a failing transform); a partly written output of a failing run is not modelled.
\<close>

definition reproject_dem :: "env \<Rightarrow> string \<Rightarrow> nat \<Rightarrow> world \<Rightarrow> world option" where
  "reproject_dem e dem_path target_epsg w =
     (case files w dem_path of
        None \<Rightarrow> None
      | Some src \<Rightarrow>
          (case reproject e src target_epsg of
             None \<Rightarrow> None
           | Some out \<Rightarrow>
               Some (logger INFO ''DEM reproyectado guardado: {name}'' [reprojected_name dem_path target_epsg]
                       (write_bytes (reprojected_name dem_path target_epsg) out w))))"

definition try_reproject :: "env \<Rightarrow> bool \<Rightarrow> string \<Rightarrow> string \<Rightarrow> world \<Rightarrow> world" where
  "try_reproject e dbg msg dem_path w =
     (case reproject_dem e dem_path 32719 w of
        None \<Rightarrow> debug_log dbg msg [] w
      | Some w' \<Rightarrow> w')"

section \<open>Satellite DEM fallback and mosaic (\<open>download_srtm_tiles\<close>, lines 810-909)\<close>

definition copernicus_fallback :: "env \<Rightarrow> bool \<Rightarrow> boundary \<Rightarrow> world \<Rightarrow> bool \<times> world" where
  "copernicus_fallback e dbg bnd w =
     (case total_bounds bnd of (minx, miny, maxx, maxy) \<Rightarrow>
        let buffer = 5 / 100;
            bbox_buf = (minx - buffer, miny - buffer, maxx + buffer, maxy + buffer)
        in case stac_search e bbox_buf of
             None \<Rightarrow> (False, logger ERROR ''Fallback Copernicus DEM (ampliado) fallo: {e3}'' [] w)
           | Some [] \<Rightarrow> (False, logger WARNING ''No se encontro Copernicus DEM para bbox ampliado.'' [] w)
           | Some (item # _) \<Rightarrow>
               (case clip_asset e item bnd of
                  None \<Rightarrow> (False, logger ERROR ''Fallback Copernicus DEM (ampliado) fallo: {e3}'' [] w)
                | Some clipped \<Rightarrow>
                    (let w1 = write_bytes ''copernicus_dem.tif'' clipped w;
                         w2 = logger INFO ''Copernicus DEM recortado guardado: {out_cop}'' [''copernicus_dem.tif''] w1
                     in (True, try_reproject e dbg ''No se pudo reproyectar Copernicus DEM: {e2}''
                                 ''copernicus_dem.tif'' w2))))"

definition mosaic_failed :: "world \<Rightarrow> bool \<times> world" where
  "mosaic_failed w = (False, logger ERROR ''Error procesando SRTM: {e}'' [] w)"

definition mosaic_done :: "env \<Rightarrow> bool \<Rightarrow> world \<Rightarrow> bool \<times> world" where
  "mosaic_done e dbg w = (True, try_reproject e dbg ''No se pudo reproyectar SRTM: {e}'' ''srtm_dem.tif'' w)"

text \<open>
  One tile is clipped directly; several are merged, written to a temporary mosaic, which
  is clipped and then removed. Any exception gives False.
\<close>

definition mosaic_stage :: "env \<Rightarrow> bool \<Rightarrow> boundary \<Rightarrow> world \<Rightarrow> bool \<times> world" where
  "mosaic_stage e dbg bnd w =
     (case those (map (files w) (hgt_files w)) of
        None \<Rightarrow> mosaic_failed w
      | Some [tile] \<Rightarrow>
          (case clip_raster e tile bnd of
             None \<Rightarrow> mosaic_failed w
           | Some clipped \<Rightarrow>
               mosaic_done e dbg
                 (logger INFO ''DEM SRTM (single tile) recortado guardado: {out_path}'' [''srtm_dem.tif'']
                    (write_bytes ''srtm_dem.tif'' clipped w)))
      | Some tiles \<Rightarrow>
          (case merge_rasters e tiles of
             None \<Rightarrow> mosaic_failed w
           | Some mosaic \<Rightarrow>
               (let w1 = write_bytes ''srtm_mosaic_tmp.tif'' mosaic w
                in case clip_raster e mosaic bnd of
                     None \<Rightarrow> mosaic_failed w1
                   | Some clipped \<Rightarrow>
                       mosaic_done e dbg
                         (logger INFO ''DEM SRTM (mosaico) recortado guardado: {out_path}'' [''srtm_dem.tif'']
                            (unlink ''srtm_mosaic_tmp.tif'' (write_bytes ''srtm_dem.tif'' clipped w1))))))"

section \<open>\<open>download_srtm_tiles\<close>\<close>

text \<open>
  The three tiers of fetching: the corner plan, the full range when the corner plan left
  \<open>hgt_files\<close> empty, and the forced download when it is still empty.
\<close>

definition corner_pass :: "env \<Rightarrow> bool \<Rightarrow> bbox \<Rightarrow> world \<Rightarrow> world" where
  "corner_pass e dbg box w =
     fetch_pass e dbg First (corner_codes box)
       ((logger INFO ''Tiles SRTM candidatos (SW corners): {codes}'' (corner_codes box) w)\<lparr>hgt_files := []\<rparr>)"

definition full_pass :: "env \<Rightarrow> bool \<Rightarrow> bbox \<Rightarrow> world \<Rightarrow> world" where
  "full_pass e dbg box w =
     fetch_pass e dbg Second (full_codes box)
       (logger INFO ''Segundo intento tiles completos: {full_codes}'' (full_codes box)
          (logger WARNING ''Sin tiles SRTM exitosos. Reintentando con enumeracion completa de rango y mirrors.'' [] w))"

definition fetch_phase :: "env \<Rightarrow> bool \<Rightarrow> bbox \<Rightarrow> world \<Rightarrow> world" where
  "fetch_phase e dbg box w =
     (let w2 = corner_pass e dbg box w;
          w3 = (if hgt_files w2 = [] then full_pass e dbg box w2 else w2)
      in if hgt_files w3 = [] then
           forced_retry e dbg box
             (logger WARNING ''Sin tiles SRTM tras segundo intento. Usando fallback directo Mapzen + Copernicus.'' [] w3)
         else w3)"

text \<open>
  The function once the boundary is there: \<open>after_fetch\<close> is the world when the three
  tiers are through; with no tile the satellite fallback decides, otherwise the mosaic.
\<close>

definition after_fetch :: "env \<Rightarrow> bool \<Rightarrow> boundary \<Rightarrow> world \<Rightarrow> world" where
  "after_fetch e dbg bnd w =
     fetch_phase e dbg (total_bounds bnd)
       (logger INFO ''BBox limites: minx={minx} miny={miny} maxx={maxx} maxy={maxy}'' [] w)"

definition download_srtm_tiles :: "env \<Rightarrow> string \<Rightarrow> bool \<Rightarrow> world \<Rightarrow> bool \<times> world" where
  "download_srtm_tiles e comuna dbg w =
     (case load_boundary_for_dem e comuna dbg w of
        (None, w1) \<Rightarrow> (False, logger WARNING ''No hay limites para SRTM.'' [] w1)
      | (Some bnd, w1) \<Rightarrow>
          if nrows bnd = 0 then (False, logger WARNING ''No hay limites para SRTM.'' [] w1)
          else
            (let w3 = after_fetch e dbg bnd w1
             in if hgt_files w3 = [] then copernicus_fallback e dbg bnd w3
                else mosaic_stage e dbg bnd w3))"

section \<open>Boundary sources (\<open>download_boundaries\<close>, \<open>download_boundaries_dpa_zip\<close>,
  \<open>save_osm_boundary_fallback\<close>)\<close>

definition default_wfs_url :: string where
  "default_wfs_url = ''https://www.ide.cl/geoserver/wfs''"

text \<open>
  \<open>wfs_url = wfs_url_override or "https://www.ide.cl/geoserver/wfs"\<close>: an absent or empty
  override gives the default. Then the WFS query: its parameters (layer, output format, the filter on the upper-cased
  comuna) go with the request; the body of a response with status 200 is written as it
  is, without being parsed. File writes are taken to succeed.
\<close>

definition wfs_url_or_default :: "string option \<Rightarrow> string" where
  "wfs_url_or_default wfs_url_override =
     (case wfs_url_override of
        None \<Rightarrow> default_wfs_url
      | Some u \<Rightarrow> if u = [] then default_wfs_url else u)"

definition download_boundaries :: "env \<Rightarrow> string option \<Rightarrow> world \<Rightarrow> bool \<times> world" where
  "download_boundaries e wfs_url_override w =
     (let w1 = logger INFO ''Descargando limites administrativos (WFS)...'' [] w;
          wfs_url = wfs_url_or_default wfs_url_override;
          (r, w2) = request e wfs_url w1
      in case r of
           Failed \<Rightarrow> (False, logger ERROR ''Error descargando limites: {e}'' [] w2)
         | Response st body \<Rightarrow>
             if st = 200 then
               (True, logger INFO ''Limites guardados (WFS) en: {boundaries_file}'' [''comuna_boundaries.geojson'']
                        (write_bytes ''comuna_boundaries.geojson'' body w2))
             else (False, logger WARNING ''No se pudieron descargar limites via WFS (status != 200)'' [] w2))"

text \<open>
  The DPA archive: the request and its status are as in the source; what follows the
  download (unpacking, ranking the shapefiles, filtering the comuna) is \<open>dpa_extract\<close>,
  which gives the filtered layer or nothing; the log messages of its failing steps are
  left out.
\<close>

definition download_boundaries_dpa_zip :: "env \<Rightarrow> string \<Rightarrow> string \<Rightarrow> bool \<Rightarrow> world \<Rightarrow> bool \<times> world" where
  "download_boundaries_dpa_zip e dpa_url comuna_name dbg w =
     (let w1 = logger INFO ''Intentando descarga oficial DPA (ZIP)...'' [] w;
          (r, w2) = request e dpa_url w1
      in case r of
           Failed \<Rightarrow> (False, logger ERROR ''Error procesando DPA oficial: {e}'' [] w2)
         | Response st content \<Rightarrow>
             if st \<noteq> 200 then (False, logger WARNING ''Fallo descarga DPA ZIP (status {status})'' [dec_str st] w2)
             else
               (case dpa_extract e content comuna_name of
                  None \<Rightarrow> (False, w2)
                | Some layer \<Rightarrow>
                    (True, logger INFO ''Limites oficiales DPA guardados en: {out_file}'' [''comuna_boundaries_oficial.geojson'']
                             (write_bytes ''comuna_boundaries_oficial.geojson'' layer w2))))"

definition save_osm_boundary_fallback :: "env \<Rightarrow> world \<Rightarrow> bool \<times> world" where
  "save_osm_boundary_fallback e w =
     (case boundary_gdf w of
        None \<Rightarrow> (False, logger WARNING ''No hay geometria disponible para fallback de limites.'' [] w)
      | Some g \<Rightarrow>
          if nrows g = 0
          then (False, logger WARNING ''No hay geometria disponible para fallback de limites.'' [] w)
          else (True, logger INFO ''Fallback de limites (OSM) guardado en: {boundary_file}'' [''osm_boundary.geojson'']
                        (write_bytes ''osm_boundary.geojson'' (to_geojson e g) w)))"

section \<open>The stages of \<open>main\<close>\<close>

text \<open>
  The options after parsing: \<open>opt_comuna\<close> is the comuna as given, \<open>opt_raw_comuna\<close> the
  sanitised name the downloader is built with, \<open>opt_sources\<close> the list of sources after the
  aliases are replaced.
\<close>

record opts =
  opt_comuna :: string
  opt_raw_comuna :: string
  opt_sources :: "string list"
  opt_skip_wfs :: bool
  opt_wfs_url :: "string option"
  opt_dpa_url :: string
  opt_debug :: bool

definition wfs_step :: "env \<Rightarrow> opts \<Rightarrow> world \<Rightarrow> bool \<times> world" where
  "wfs_step e ops w =
     (if \<not> opt_skip_wfs ops then
        (case download_boundaries e (opt_wfs_url ops) w of
           (ok_wfs, w1) \<Rightarrow>
             (ok_wfs, if \<not> ok_wfs
                      then logger WARNING ''Limites WFS no descargados. Se intentara DPA o fallback.'' [] w1
                      else w1))
      else (False, logger INFO ''--skip-wfs activo: se omite descarga de limites (WFS)'' [] w))"

text \<open>
  The block \<open>if 'ide' in sources_list\<close>. The result of \<open>save_osm_boundary_fallback\<close> is
  dropped, and the block gives no value to the rest of \<open>main\<close>; the model returns the
  three results so that they can be talked about.
\<close>

definition ide_stage :: "env \<Rightarrow> opts \<Rightarrow> world \<Rightarrow> (bool \<times> bool \<times> bool) \<times> world" where
  "ide_stage e ops w =
     (case wfs_step e ops w of
        (ok_wfs, w1) \<Rightarrow>
          if opt_skip_wfs ops \<or> \<not> ok_wfs then
            (case download_boundaries_dpa_zip e (opt_dpa_url ops) (opt_comuna ops) (opt_debug ops) w1 of
               (ok_dpa, w2) \<Rightarrow>
                 if \<not> ok_dpa then
                   (case save_osm_boundary_fallback e
                           (logger INFO ''Usando fallback OSM para limites (geocode_to_gdf).'' [] w2) of
                      (ok_osm, w3) \<Rightarrow> ((ok_wfs, ok_dpa, ok_osm), w3))
                 else ((ok_wfs, ok_dpa, False), w2))
          else ((ok_wfs, False, False), w1))"

definition srtm_stage :: "env \<Rightarrow> opts \<Rightarrow> world \<Rightarrow> world" where
  "srtm_stage e ops w =
     (case download_srtm_tiles e (opt_raw_comuna ops) (opt_debug ops) w of
        (ok_srtm, w1) \<Rightarrow>
          if ok_srtm then logger INFO ''SRTM descargado y mosaico generado correctamente.'' [] w1
          else logger WARNING ''Fallo descarga SRTM (sin tiles validos).'' [] w1)"

definition main_stages :: "env \<Rightarrow> opts \<Rightarrow> world \<Rightarrow> world" where
  "main_stages e ops w =
     (let w1 = (if ''osm'' \<in> set (opt_sources ops) then osm_stage e w else w);
          w2 = (if ''ide'' \<in> set (opt_sources ops) then snd (ide_stage e ops w1) else w1);
          w3 = (if ''censo'' \<in> set (opt_sources ops) then censo_stage e w2 else w2);
          w4 = (if ''srtm'' \<in> set (opt_sources ops) then srtm_stage e ops w3 else w3);
          w5 = (if ''copernicus'' \<in> set (opt_sources ops) then sentinel2_stage e w4 else w4);
          w6 = (if ''ide_minvu'' \<in> set (opt_sources ops) then minvu_stage e w5 else w5)
      in create_metadata e w6)"


section \<open>Concrete worlds and environments\<close>

definition world0 :: world where
  "world0 = \<lparr>files = Map.empty, reqs = [], logs = [], boundary_gdf = None, hgt_files = []\<rparr>"

text \<open>A stand-in for gzip: a body is the two letters GZ followed by the raw bytes.\<close>

definition toy_gunzip :: "string \<Rightarrow> string option" where
  "toy_gunzip b = (case b of c1 # c2 # raw \<Rightarrow> if c1 = CHR ''G'' \<and> c2 = CHR ''Z'' then Some raw else None
                   | _ \<Rightarrow> None)"

text \<open>Every request answers 404, nothing geocodes, the catalog has no item.\<close>

definition env_down :: env where
  "env_down =
     \<lparr>http_get = (\<lambda>h u. Response 404 []),
      gunzip = toy_gunzip,
      unzip = (\<lambda>b. None),
      has_geocode = True,
      geocode = (\<lambda>q. None),
      to_wgs84 = Some,
      to_geojson = (\<lambda>g. []),
      stac_search = (\<lambda>b. Some []),
      clip_asset = (\<lambda>i g. None),
      clip_raster = (\<lambda>t g. Some t),
      merge_rasters = (\<lambda>ts. Some (concat ts)),
      reproject = (\<lambda>t k. Some t),
      dpa_extract = (\<lambda>c n. None),
      osm_stage = (\<lambda>w. w),
      censo_stage = (\<lambda>w. w),
      sentinel2_stage = (\<lambda>w. w),
      minvu_stage = (\<lambda>w. w),
      create_metadata = (\<lambda>w. w)\<rparr>"

definition small_bnd :: boundary where
  "small_bnd = \<lparr>nrows = 1, total_bounds = small_box\<rparr>"

text \<open>As \<open>env_down\<close>, but the comuna geocodes.\<close>

definition env_no_tiles :: env where
  "env_no_tiles = env_down\<lparr>geocode := (\<lambda>q. Some small_bnd)\<rparr>"

text \<open>Only the raw mirror of tile S35W072 answers.\<close>

definition env_raw_only :: env where
  "env_raw_only =
     env_down\<lparr>http_get := (\<lambda>h u. if u = ''https://srtm.kurviger.de/SRTM3/S35W072.hgt''
                                then Response 200 ''DEM'' else Response 404 [])\<rparr>"

text \<open>The first mirror of tile S35W072 answers with a compressed tile of three bytes.\<close>

definition env_gz_small :: env where
  "env_gz_small =
     env_down\<lparr>http_get := (\<lambda>h u. if u = ''https://srtm.kurviger.de/SRTM3/S35W072.hgt.gz''
                                then Response 200 ''GZabc'' else Response 404 [])\<rparr>"

text \<open>The Skadi mirror answers with a compressed tile of three bytes.\<close>

definition env_skadi_small :: env where
  "env_skadi_small =
     env_down\<lparr>http_get := (\<lambda>h u. if u = ''https://s3.amazonaws.com/elevation-tiles-prod/skadi/S35/S35W072.hgt.gz''
                                then Response 200 ''GZabc'' else Response 404 [])\<rparr>"

text \<open>Only the fourth mirror of tile S35W072 answers, with a compressed tile of three bytes.\<close>

definition env_fourth_small :: env where
  "env_fourth_small =
     env_down\<lparr>http_get := (\<lambda>h u. if u = ''https://srtmtiles.s3.amazonaws.com/S35W072.hgt.gz''
                                then Response 200 ''GZabc'' else Response 404 [])\<rparr>"

definition ops_ide_srtm :: opts where
  "ops_ide_srtm =
     \<lparr>opt_comuna = ''Rengo'', opt_raw_comuna = ''Rengo'', opt_sources = [''ide'', ''srtm''],
      opt_skip_wfs = False, opt_wfs_url = None,
      opt_dpa_url = ''https://www.geoportal.cl/geoportal/catalog/download/912598ad-ac92-35f6-8045-098f214bd9c2'',
      opt_debug = False\<rparr>"

text \<open>A GeoJSON feature collection without features, and a WFS service that answers with it.\<close>

definition empty_feature_collection :: string where
  \<open>empty_feature_collection = ''{"type":"FeatureCollection","features":[]}''\<close>

definition env_wfs_empty :: env where
  "env_wfs_empty =
     env_down\<lparr>http_get := (\<lambda>h u. if u = default_wfs_url
                                then Response 200 empty_feature_collection else Response 404 [])\<rparr>"

definition world_cached :: world where
  "world_cached = world0\<lparr>files := [''S35W072.hgt'' \<mapsto> ''old'']\<rparr>"


section \<open>Facts about the encoding\<close>

lemma digit_val_digit_char: "d < 10 \<Longrightarrow> digit_val (digit_char d) = Some d"
proof -
  assume "d < 10"
  then have "d \<in> {0, 1, 2, 3, 4, 5, 6, 7, 8, 9}" by auto
  then show ?thesis
    by (auto simp: digit_val_def digit_char_def)
qed

lemma dec_str_1: "n < 10 \<Longrightarrow> dec_str n = [digit_char n]"
  by (simp add: dec_str.simps)

lemma dec_str_2: "10 \<le> n \<Longrightarrow> n < 100 \<Longrightarrow> dec_str n = [digit_char (n div 10), digit_char (n mod 10)]"
  by (subst dec_str.simps) (simp add: dec_str_1)

lemma dec_str_3:
  "100 \<le> n \<Longrightarrow> n < 1000 \<Longrightarrow>
   dec_str n = [digit_char (n div 10 div 10), digit_char (n div 10 mod 10), digit_char (n mod 10)]"
  by (subst dec_str.simps) (simp add: dec_str_2)

lemma digit_char_0: "digit_char 0 = CHR ''0''"
  by (simp add: digit_char_def)

lemma zpad_2: "n < 100 \<Longrightarrow> zpad 2 n = [digit_char (n div 10), digit_char (n mod 10)]"
proof (cases "n < 10")
  case True
  then show ?thesis by (simp add: zpad_def dec_str_1 digit_char_0)
next
  case False
  assume "n < 100"
  with False show ?thesis by (simp add: zpad_def dec_str_2)
qed

lemma zpad_3:
  "n < 1000 \<Longrightarrow>
   zpad 3 n = [digit_char (n div 10 div 10), digit_char (n div 10 mod 10), digit_char (n mod 10)]"
proof -
  assume n: "n < 1000"
  consider "n < 10" | "10 \<le> n" "n < 100" | "100 \<le> n" by linarith
  then show ?thesis
  proof cases
    case 1
    then show ?thesis
      by (simp add: zpad_def dec_str_1 digit_char_0 numeral_3_eq_3)
  next
    case 2
    then show ?thesis
      by (simp add: zpad_def dec_str_2 digit_char_0)
  next
    case 3
    with n show ?thesis by (simp add: zpad_def dec_str_3)
  qed
qed

lemma tile_code_shape:
  assumes "\<bar>la\<bar> < 100" and "\<bar>lo\<bar> < 1000"
  shows "tile_code la lo =
           [if la \<ge> 0 then CHR ''N'' else CHR ''S'',
            digit_char (nat \<bar>la\<bar> div 10), digit_char (nat \<bar>la\<bar> mod 10),
            if lo \<ge> 0 then CHR ''E'' else CHR ''W'',
            digit_char (nat \<bar>lo\<bar> div 10 div 10), digit_char (nat \<bar>lo\<bar> div 10 mod 10),
            digit_char (nat \<bar>lo\<bar> mod 10)]"
proof -
  have a: "nat \<bar>la\<bar> < 100" and b: "nat \<bar>lo\<bar> < 1000" using assms by auto
  show ?thesis
    unfolding tile_code_def Let_def by (simp add: zpad_2 [OF a] zpad_3 [OF b])
qed

lemma digits_3: "100 * ((b::nat) div 10 div 10) + 10 * (b div 10 mod 10) + b mod 10 = b"
proof -
  have "10 * (b div 10 div 10) + b div 10 mod 10 = b div 10" by simp
  then have "100 * (b div 10 div 10) + 10 * (b div 10 mod 10) = 10 * (b div 10)" by linarith
  then show ?thesis by simp
qed

lemma decode_tile_code:
  assumes "\<bar>la\<bar> < 100" and "\<bar>lo\<bar> < 1000"
  shows "spec_decode_tile (tile_code la lo) = Some (la, lo)"
proof -
  let ?a = "nat \<bar>la\<bar>" and ?b = "nat \<bar>lo\<bar>"
  have a: "?a < 100" and b: "?b < 1000" using assms by auto
  have d1: "digit_val (digit_char (?a div 10)) = Some (?a div 10)"
    using a by (intro digit_val_digit_char) simp
  have d2: "digit_val (digit_char (?a mod 10)) = Some (?a mod 10)"
    by (intro digit_val_digit_char) simp
  have d3: "digit_val (digit_char (?b div 10 div 10)) = Some (?b div 10 div 10)"
    using b by (intro digit_val_digit_char) simp
  have d4: "digit_val (digit_char (?b div 10 mod 10)) = Some (?b div 10 mod 10)"
    by (intro digit_val_digit_char) simp
  have d5: "digit_val (digit_char (?b mod 10)) = Some (?b mod 10)"
    by (intro digit_val_digit_char) simp
  have va: "int (10 * (?a div 10) + ?a mod 10) = \<bar>la\<bar>" by simp
  have vb: "int (100 * (?b div 10 div 10) + 10 * (?b div 10 mod 10) + ?b mod 10) = \<bar>lo\<bar>"
    unfolding digits_3 by simp
  have "spec_decode_tile (tile_code la lo) =
          Some ((if la \<ge> 0 then 1 else -1) * \<bar>la\<bar>, (if lo \<ge> 0 then 1 else -1) * \<bar>lo\<bar>)"
    unfolding tile_code_shape [OF assms] spec_decode_tile_def
    by (simp only: list.case prod.case option.case d1 d2 d3 d4 d5 va vb) simp
  then show ?thesis by (simp add: abs_if)
qed

lemma tile_code_example: "tile_code (-34) (-71) = ''S34W071''"
  by (simp add: tile_code_def zpad_def dec_str.simps digit_char_def)

text \<open>
  Claim C4. For every integer pair with \<open>-90 \<le> lat_sw \<le> 89\<close> and \<open>-180 \<le> lon_sw \<le> 179\<close>,
  \<open>tile_code\<close> yields seven characters: the latitude hemisphere letter, two digits of the
  latitude magnitude, the longitude hemisphere letter and three digits of the longitude
  magnitude. Decoding the letters and the digits gives the pair back, so no two pairs of
  the range share a token.
\<close>

theorem tile_code_roundtrip:
  assumes "tile_range la lo"
  shows "length (tile_code la lo) = 7 \<and>
         tile_code la lo =
           [if la \<ge> 0 then CHR ''N'' else CHR ''S'',
            digit_char (nat \<bar>la\<bar> div 10), digit_char (nat \<bar>la\<bar> mod 10),
            if lo \<ge> 0 then CHR ''E'' else CHR ''W'',
            digit_char (nat \<bar>lo\<bar> div 10 div 10), digit_char (nat \<bar>lo\<bar> div 10 mod 10),
            digit_char (nat \<bar>lo\<bar> mod 10)] \<and>
         spec_decode_tile (tile_code la lo) = Some (la, lo) \<and>
         (\<forall>la' lo'. tile_range la' lo' \<and> tile_code la' lo' = tile_code la lo
            \<longrightarrow> la' = la \<and> lo' = lo)"
proof -
  have r: "\<bar>la\<bar> < 100" "\<bar>lo\<bar> < 1000"
    using assms by (auto simp: tile_range_def)
  have shape: "tile_code la lo =
           [if la \<ge> 0 then CHR ''N'' else CHR ''S'',
            digit_char (nat \<bar>la\<bar> div 10), digit_char (nat \<bar>la\<bar> mod 10),
            if lo \<ge> 0 then CHR ''E'' else CHR ''W'',
            digit_char (nat \<bar>lo\<bar> div 10 div 10), digit_char (nat \<bar>lo\<bar> div 10 mod 10),
            digit_char (nat \<bar>lo\<bar> mod 10)]"
    by (rule tile_code_shape [OF r])
  have len: "length (tile_code la lo) = 7"
    by (subst shape) simp
  have dec: "spec_decode_tile (tile_code la lo) = Some (la, lo)"
    by (rule decode_tile_code [OF r])
  have inj: "la' = la \<and> lo' = lo"
    if h: "tile_range la' lo' \<and> tile_code la' lo' = tile_code la lo" for la' lo'
  proof -
    have r': "\<bar>la'\<bar> < 100" "\<bar>lo'\<bar> < 1000"
      using h by (auto simp: tile_range_def)
    have "Some (la', lo') = spec_decode_tile (tile_code la' lo')"
      by (simp add: decode_tile_code [OF r'])
    also have "\<dots> = Some (la, lo)"
      using h dec by simp
    finally show ?thesis by simp
  qed
  from len shape dec inj show ?thesis by blast
qed

theorem tile_code_roundtrip_witness:
  "tile_range (-34) (-71) \<and> length (tile_code (-34) (-71)) = 7 \<and>
   spec_decode_tile (tile_code (-34) (-71)) = Some (-34, -71)"
proof -
  have h: "tile_range (-34) (-71)" by (simp add: tile_range_def)
  from tile_code_roundtrip [OF h] h show ?thesis by blast
qed

section \<open>Facts about the tile plans\<close>

lemma small_box_floor:
  "\<lfloor>(- (69 / 2) :: real)\<rfloor> = -35" "\<lfloor>(- (172 / 5) :: real)\<rfloor> = -35"
  "\<lfloor>(- (143 / 2) :: real)\<rfloor> = -72" "\<lfloor>(- (357 / 5) :: real)\<rfloor> = -72"
  by (simp_all add: floor_eq_iff)

lemma tile_code_S35W072: "tile_code (-35) (-72) = ''S35W072''"
  by (simp add: tile_code_def zpad_def dec_str.simps digit_char_def)

lemma corner_codes_small: "corner_codes small_box = [''S35W072'']"
  by (simp add: corner_codes_def small_box_def small_box_floor eps_def floor_eq_iff tile_code_S35W072)

lemma floor_sub_eps:
  fixes lo hi :: real
  assumes "of_int \<lfloor>lo\<rfloor> \<le> hi - eps" and "hi \<le> of_int \<lfloor>lo\<rfloor> + 1"
  shows "\<lfloor>hi - eps\<rfloor> = \<lfloor>lo\<rfloor>"
proof (rule floor_unique)
  show "of_int \<lfloor>lo\<rfloor> \<le> hi - eps" by (rule assms(1))
  have "0 < eps" by (simp add: eps_def)
  with assms(2) show "hi - eps < of_int \<lfloor>lo\<rfloor> + 1" by linarith
qed

text \<open>
  Claim C3, as the code has it. A box in one degree cell gets exactly one tile identifier,
  the one of the cell of its south-west corner, provided its north edge is at least
  \<open>1e-9\<close> degrees above the south edge of that cell and its east edge at least \<open>1e-9\<close>
  degrees east of the cell's west edge.
\<close>

theorem corner_plan_one_tile:
  assumes "in_one_cell (minx, miny, maxx, maxy)"
    and "of_int \<lfloor>miny\<rfloor> \<le> maxy - eps"
    and "of_int \<lfloor>minx\<rfloor> \<le> maxx - eps"
  shows "corner_codes (minx, miny, maxx, maxy) = [tile_code \<lfloor>miny\<rfloor> \<lfloor>minx\<rfloor>]"
proof -
  have y: "\<lfloor>maxy - eps\<rfloor> = \<lfloor>miny\<rfloor>"
    using assms(1,2) by (intro floor_sub_eps) (simp_all add: in_one_cell_def)
  have x: "\<lfloor>maxx - eps\<rfloor> = \<lfloor>minx\<rfloor>"
    using assms(1,3) by (intro floor_sub_eps) (simp_all add: in_one_cell_def)
  show ?thesis
    by (simp add: corner_codes_def x y)
qed

theorem corner_plan_one_tile_witness:
  "in_one_cell small_box \<and> corner_codes small_box = [''S35W072'']"
proof -
  have b: "small_box = (- (143 / 2), - (69 / 2), - (357 / 5), - (172 / 5))" by (simp add: small_box_def)
  have h1: "in_one_cell (- (143 / 2), - (69 / 2), - (357 / 5), - (172 / 5))"
    by (simp add: in_one_cell_def small_box_floor)
  have h2: "of_int \<lfloor>(- (69 / 2) :: real)\<rfloor> \<le> (- (172 / 5) :: real) - eps"
    by (simp add: small_box_floor eps_def)
  have h3: "of_int \<lfloor>(- (143 / 2) :: real)\<rfloor> \<le> (- (357 / 5) :: real) - eps"
    by (simp add: small_box_floor eps_def)
  from corner_plan_one_tile [OF h1 h2 h3] h1 show ?thesis
    unfolding b by (simp add: small_box_floor tile_code_S35W072)
qed

text \<open>
  The box \<open>thin_box\<close> lies strictly inside the cell of 34 S, 72 W and is less than \<open>1e-9\<close>
  degrees high: \<open>floor(maxy - 1e-9)\<close> falls into the row below, and the plan has two tiles.
\<close>

theorem corner_plan_thin_box:
  "in_one_cell thin_box \<and> corner_codes thin_box = [''S34W072'', ''S35W072'']"
  by code_simp

lemma set_full_codes:
  "set (full_codes (minx, miny, maxx, maxy)) =
     {tile_code la lo | la lo. \<lfloor>miny\<rfloor> \<le> la \<and> la \<le> \<lceil>maxy\<rceil> \<and> \<lfloor>minx\<rfloor> \<le> lo \<and> lo \<le> \<lceil>maxx\<rceil>}"
  by (auto simp: full_codes_def) blast

lemma set_corner_codes:
  "set (corner_codes (minx, miny, maxx, maxy)) =
     {tile_code la lo | la lo. (la = \<lfloor>miny\<rfloor> \<or> la = \<lfloor>maxy - eps\<rfloor>) \<and> (lo = \<lfloor>minx\<rfloor> \<or> lo = \<lfloor>maxx - eps\<rfloor>)}"
  by (auto simp: corner_codes_def)

lemma floor_sub_eps_le_ceiling: "\<lfloor>(x::real) - eps\<rfloor> \<le> \<lceil>x\<rceil>"
proof -
  have "0 < eps" by (simp add: eps_def)
  then have "\<lfloor>x - eps\<rfloor> \<le> \<lfloor>x\<rfloor>" by (intro floor_mono) simp
  also have "\<dots> \<le> \<lceil>x\<rceil>" by (rule floor_le_ceiling)
  finally show ?thesis .
qed

lemma floor_le_floor_sub_eps:
  fixes lo hi :: real
  assumes "of_int \<lfloor>lo\<rfloor> \<le> hi - eps"
  shows "\<lfloor>lo\<rfloor> \<le> \<lfloor>hi - eps\<rfloor>"
  using assms by (simp add: le_floor_iff)

lemma full_codes_small: "full_codes small_box = [''S34W071'', ''S34W072'', ''S35W071'', ''S35W072'']"
  by code_simp

lemma full_codes_cells:
  assumes "\<lfloor>miny\<rfloor> \<le> la" and "la \<le> \<lfloor>maxy\<rfloor>" and "\<lfloor>minx\<rfloor> \<le> lo" and "lo \<le> \<lfloor>maxx\<rfloor>"
  shows "tile_code la lo \<in> set (full_codes (minx, miny, maxx, maxy))"
proof -
  have "\<lfloor>maxy\<rfloor> \<le> \<lceil>maxy\<rceil>" "\<lfloor>maxx\<rfloor> \<le> \<lceil>maxx\<rceil>" by (rule floor_le_ceiling)+
  with assms have "\<lfloor>miny\<rfloor> \<le> la \<and> la \<le> \<lceil>maxy\<rceil> \<and> \<lfloor>minx\<rfloor> \<le> lo \<and> lo \<le> \<lceil>maxx\<rceil>" by linarith
  then show ?thesis unfolding set_full_codes by blast
qed

lemma corner_subset_full:
  assumes "of_int \<lfloor>miny\<rfloor> \<le> maxy - eps" and "of_int \<lfloor>minx\<rfloor> \<le> maxx - eps"
  shows "set (corner_codes (minx, miny, maxx, maxy)) \<subseteq> set (full_codes (minx, miny, maxx, maxy))"
proof
  have y1: "\<lfloor>miny\<rfloor> \<le> \<lfloor>maxy - eps\<rfloor>" and x1: "\<lfloor>minx\<rfloor> \<le> \<lfloor>maxx - eps\<rfloor>"
    using assms by (simp_all add: floor_le_floor_sub_eps)
  have y2: "\<lfloor>maxy - eps\<rfloor> \<le> \<lceil>maxy\<rceil>" and x2: "\<lfloor>maxx - eps\<rfloor> \<le> \<lceil>maxx\<rceil>"
    by (rule floor_sub_eps_le_ceiling)+
  fix c
  assume "c \<in> set (corner_codes (minx, miny, maxx, maxy))"
  then obtain la lo where c: "c = tile_code la lo"
    and la: "la = \<lfloor>miny\<rfloor> \<or> la = \<lfloor>maxy - eps\<rfloor>" and lo: "lo = \<lfloor>minx\<rfloor> \<or> lo = \<lfloor>maxx - eps\<rfloor>"
    unfolding set_corner_codes by blast
  from la y1 y2 have "\<lfloor>miny\<rfloor> \<le> la \<and> la \<le> \<lceil>maxy\<rceil>" by auto
  moreover from lo x1 x2 have "\<lfloor>minx\<rfloor> \<le> lo \<and> lo \<le> \<lceil>maxx\<rceil>" by auto
  ultimately show "c \<in> set (full_codes (minx, miny, maxx, maxy))"
    unfolding set_full_codes c by blast
qed

lemma distinct_corner_codes: "distinct (corner_codes box)"
  by (cases box) (simp add: corner_codes_def Let_def)

lemma distinct_full_codes: "distinct (full_codes box)"
  by (cases box) (simp add: full_codes_def Let_def)

section \<open>Facts about one mirror attempt and the mirror loop\<close>

lemma logger_sel [simp]:
  "files (logger lv msg args w) = files w"
  "reqs (logger lv msg args w) = reqs w"
  "hgt_files (logger lv msg args w) = hgt_files w"
  "boundary_gdf (logger lv msg args w) = boundary_gdf w"
  "logs (logger lv msg args w) = logs w @ [(lv, msg, args)]"
  by (simp_all add: logger_def)

lemma debug_log_sel [simp]:
  "files (debug_log dbg msg args w) = files w"
  "reqs (debug_log dbg msg args w) = reqs w"
  "hgt_files (debug_log dbg msg args w) = hgt_files w"
  "boundary_gdf (debug_log dbg msg args w) = boundary_gdf w"
  by (simp_all add: debug_log_def)

lemma debug_log_logs: "set (logs w) \<subseteq> set (logs (debug_log dbg msg args w))"
  by (auto simp: debug_log_def)

lemma write_bytes_sel [simp]:
  "files (write_bytes name content w) = (files w)(name \<mapsto> content)"
  "reqs (write_bytes name content w) = reqs w"
  "hgt_files (write_bytes name content w) = hgt_files w"
  "boundary_gdf (write_bytes name content w) = boundary_gdf w"
  "logs (write_bytes name content w) = logs w"
  by (simp_all add: write_bytes_def)

lemma unlink_sel [simp]:
  "files (unlink name w) = (files w)(name := None)"
  "reqs (unlink name w) = reqs w"
  "hgt_files (unlink name w) = hgt_files w"
  "boundary_gdf (unlink name w) = boundary_gdf w"
  "logs (unlink name w) = logs w"
  by (simp_all add: unlink_def)

lemma request_sel [simp]:
  "fst (request e url w) = http_get e (reqs w) url"
  "files (snd (request e url w)) = files w"
  "reqs (snd (request e url w)) = reqs w @ [url]"
  "hgt_files (snd (request e url w)) = hgt_files w"
  "boundary_gdf (snd (request e url w)) = boundary_gdf w"
  "logs (snd (request e url w)) = logs w"
  by (simp_all add: request_def)

lemma hgt_ne_gz [simp]: "c @ ''.hgt'' \<noteq> c2 @ ''.hgt.gz''"
proof
  assume "c @ ''.hgt'' = c2 @ ''.hgt.gz''"
  then have "last (c @ ''.hgt'') = last (c2 @ ''.hgt.gz'')" by simp
  then show False by simp
qed

lemma hgt_ne_zip [simp]: "c @ ''.hgt'' \<noteq> c2 @ ''.zip''"
proof
  assume "c @ ''.hgt'' = c2 @ ''.zip''"
  then have "last (c @ ''.hgt'') = last (c2 @ ''.zip'')" by simp
  then show False by simp
qed

lemma materialize_frame:
  assumes "materialize e ps code url content w = (ok, w')"
  shows "reqs w' = reqs w \<and> hgt_files w' = hgt_files w \<and> logs w' = logs w \<and> boundary_gdf w' = boundary_gdf w
         \<and> (\<forall>f. f \<noteq> code @ ''.hgt'' \<and> f \<noteq> code @ ''.hgt.gz'' \<and> f \<noteq> code @ ''.zip'' \<longrightarrow> files w' f = files w f)"
  using assms
  by (auto simp: materialize_def Let_def split: if_splits option.splits)

lemma materialize_failed:
  assumes "materialize e ps code url content w = (False, w')"
  shows "files w' (code @ ''.hgt'') = files w (code @ ''.hgt'')"
  using assms
  by (auto simp: materialize_def Let_def split: if_splits option.splits)


lemma try_url_frame:
  assumes "try_url e dbg ps code url w = (r, w')"
  shows "reqs w' = reqs w @ [url] \<and> boundary_gdf w' = boundary_gdf w \<and>
         (\<forall>f. f \<noteq> code @ ''.hgt'' \<and> f \<noteq> code @ ''.hgt.gz'' \<and> f \<noteq> code @ ''.zip'' \<longrightarrow> files w' f = files w f)"
proof (cases "http_get e (reqs w) url")
  case Failed
  with assms show ?thesis
    by (auto simp: try_url_def request_def Let_def)
next
  case (Response st content)
  let ?w2 = "snd (request e url (debug_log dbg (try_msg ps) [code, url] w))"
  show ?thesis
  proof (cases "st = 200")
    case False
    with Response assms show ?thesis
      by (auto simp: try_url_def request_def Let_def)
  next
    case True
    obtain ok w3 where m: "materialize e ps code url content ?w2 = (ok, w3)"
      by (cases "materialize e ps code url content ?w2") auto
    from materialize_frame [OF m] m Response True assms show ?thesis
      by (auto simp: try_url_def request_def Let_def split: option.splits if_splits bool.splits)
  qed
qed

lemma try_url_outcome:
  assumes "files w (code @ ''.hgt'') = None" and "try_url e dbg ps code url w = (r, w')"
  shows "if r then (\<exists>b. files w' (code @ ''.hgt'') = Some b \<and>
                        hgt_files w' = hgt_files w @ [code @ ''.hgt''] \<and>
                        (length b < 2000000 \<longrightarrow>
                           (WARNING, size_msg ps, [code, dec_str (length b)]) \<in> set (logs w')))
         else files w' (code @ ''.hgt'') = None \<and> hgt_files w' = hgt_files w"
proof (cases "http_get e (reqs w) url")
  case Failed
  with assms show ?thesis
    by (auto simp: try_url_def request_def Let_def)
next
  case (Response st content)
  let ?w2 = "snd (request e url (debug_log dbg (try_msg ps) [code, url] w))"
  show ?thesis
  proof (cases "st = 200")
    case False
    with Response assms show ?thesis
      by (auto simp: try_url_def request_def Let_def)
  next
    case True
    obtain ok w3 where m: "materialize e ps code url content ?w2 = (ok, w3)"
      by (cases "materialize e ps code url content ?w2") auto
    have fr: "hgt_files w3 = hgt_files w" using materialize_frame [OF m] by simp
    show ?thesis
    proof (cases ok)
      case False
      with m have "files w3 (code @ ''.hgt'') = None"
        using materialize_failed [of e ps code url content ?w2 w3] assms(1) by simp
      with False m Response True assms fr show ?thesis
        by (auto simp: try_url_def request_def Let_def)
    next
      case ok: True
      show ?thesis
      proof (cases "files w3 (code @ ''.hgt'')")
        case None
        with ok m Response True assms fr show ?thesis
          by (auto simp: try_url_def request_def Let_def)
      next
        case (Some b)
        with ok m Response True assms fr show ?thesis
          by (auto simp: try_url_def request_def Let_def)
      qed
    qed
  qed
qed

lemma try_urls_outcome:
  assumes "files w (code @ ''.hgt'') = None" and "try_urls e dbg ps code urls w = (r, w')"
  shows "if r then (\<exists>b. files w' (code @ ''.hgt'') = Some b \<and>
                        hgt_files w' = hgt_files w @ [code @ ''.hgt''] \<and>
                        (length b < 2000000 \<longrightarrow>
                           (WARNING, size_msg ps, [code, dec_str (length b)]) \<in> set (logs w')))
         else files w' (code @ ''.hgt'') = None \<and> hgt_files w' = hgt_files w"
  using assms
proof (induction urls arbitrary: w)
  case Nil
  then show ?case by simp
next
  case (Cons url urls)
  obtain r1 w1 where t: "try_url e dbg ps code url w = (r1, w1)"
    by (cases "try_url e dbg ps code url w") auto
  show ?case
  proof (cases r1)
    case True
    with t Cons.prems(2) have "r = True" "w' = w1" by simp_all
    with try_url_outcome [OF Cons.prems(1) t] True show ?thesis by simp
  next
    case False
    with try_url_outcome [OF Cons.prems(1) t]
    have k: "files w1 (code @ ''.hgt'') = None" and h: "hgt_files w1 = hgt_files w" by simp_all
    from False t Cons.prems(2) have "try_urls e dbg ps code urls w1 = (r, w')" by simp
    from Cons.IH [OF k this] h show ?thesis by (cases r) auto
  qed
qed

lemma try_urls_frame:
  assumes "try_urls e dbg ps code urls w = (r, w')"
  shows "(\<exists>rs. reqs w' = reqs w @ rs \<and> set rs \<subseteq> set urls) \<and> boundary_gdf w' = boundary_gdf w \<and>
         (\<forall>f. f \<noteq> code @ ''.hgt'' \<and> f \<noteq> code @ ''.hgt.gz'' \<and> f \<noteq> code @ ''.zip'' \<longrightarrow> files w' f = files w f)"
  using assms
proof (induction urls arbitrary: w)
  case Nil
  then show ?case by simp
next
  case (Cons url urls)
  obtain r1 w1 where t: "try_url e dbg ps code url w = (r1, w1)"
    by (cases "try_url e dbg ps code url w") auto
  note f1 = try_url_frame [OF t]
  show ?case
  proof (cases r1)
    case True
    with t Cons.prems have "w' = w1" by simp
    with f1 show ?thesis by auto
  next
    case False
    with t Cons.prems have "try_urls e dbg ps code urls w1 = (r, w')" by simp
    from Cons.IH [OF this] obtain rs where
      rs: "reqs w' = reqs w1 @ rs" "set rs \<subseteq> set urls" and
      b: "boundary_gdf w' = boundary_gdf w1" and
      f: "\<forall>f. f \<noteq> code @ ''.hgt'' \<and> f \<noteq> code @ ''.hgt.gz'' \<and> f \<noteq> code @ ''.zip'' \<longrightarrow> files w' f = files w1 f"
      by blast
    from rs f1 have "reqs w' = reqs w @ (url # rs) \<and> set (url # rs) \<subseteq> set (url # urls)" by auto
    then have "\<exists>rs. reqs w' = reqs w @ rs \<and> set rs \<subseteq> set (url # urls)" by blast
    with b f f1 show ?thesis by auto
  qed
qed

section \<open>Facts about fetching a tile and a pass\<close>

lemma skadi_inj:
  assumes "take 3 c @ ''/'' @ c @ ''.hgt.gz'' = take 3 c2 @ ''/'' @ c2 @ ''.hgt.gz''"
  shows "c = c2"
proof -
  have "length (take 3 c @ ''/'' @ c @ ''.hgt.gz'') = length (take 3 c2 @ ''/'' @ c2 @ ''.hgt.gz'')"
    by (rule arg_cong [OF assms])
  then have len: "length c = length c2" by (simp add: min_def split: if_splits)
  then have l: "length (take 3 c) = length (take 3 c2)" by simp
  have "(take 3 c @ ''/'' @ c @ ''.hgt.gz'' = take 3 c2 @ ''/'' @ c2 @ ''.hgt.gz'') =
        (take 3 c = take 3 c2 \<and> ''/'' @ c @ ''.hgt.gz'' = ''/'' @ c2 @ ''.hgt.gz'')"
    by (rule append_eq_append_conv, rule disjI1, rule l)
  with assms have "''/'' @ c @ ''.hgt.gz'' = ''/'' @ c2 @ ''.hgt.gz''" by blast
  then show ?thesis by simp
qed

lemma tile_urls_disjoint:
  assumes "c \<noteq> c2"
  shows "set (tile_urls c) \<inter> set (tile_urls c2) = {}"
  using assms hgt_ne_gz [of c c2] hgt_ne_gz [of c2 c] skadi_inj [of c c2]
  by (auto simp: tile_urls_def)


lemma fetch_tile_cached:
  "files w (code @ ''.hgt'') = Some b \<Longrightarrow>
   fetch_tile e dbg ps code w = w\<lparr>hgt_files := hgt_files w @ [code @ ''.hgt'']\<rparr>"
  by (simp add: fetch_tile_def)

lemma fetch_tile_fresh:
  assumes "files w (code @ ''.hgt'') = None"
  shows "(files (fetch_tile e dbg ps code w) (code @ ''.hgt'') = None \<and>
          hgt_files (fetch_tile e dbg ps code w) = hgt_files w) \<or>
         (\<exists>b. files (fetch_tile e dbg ps code w) (code @ ''.hgt'') = Some b \<and>
              hgt_files (fetch_tile e dbg ps code w) = hgt_files w @ [code @ ''.hgt''] \<and>
              (length b < 2000000 \<longrightarrow>
                 (WARNING, size_msg ps, [code, dec_str (length b)]) \<in> set (logs (fetch_tile e dbg ps code w))))"
proof -
  obtain r w' where t: "try_urls e dbg ps code (tile_urls code) w = (r, w')"
    by (cases "try_urls e dbg ps code (tile_urls code) w") auto
  show ?thesis
  proof (cases r)
    case True
    with t assms have "fetch_tile e dbg ps code w = w'" by (simp add: fetch_tile_def)
    with try_urls_outcome [OF assms t] True show ?thesis by simp
  next
    case False
    with t assms have "fetch_tile e dbg ps code w = logger WARNING (miss_msg ps) [code] w'"
      by (simp add: fetch_tile_def)
    with try_urls_outcome [OF assms t] False show ?thesis by simp
  qed
qed

lemma fetch_tile_frame:
  "(\<exists>rs. reqs (fetch_tile e dbg ps code w) = reqs w @ rs \<and> set rs \<subseteq> set (tile_urls code)) \<and>
   boundary_gdf (fetch_tile e dbg ps code w) = boundary_gdf w \<and>
   (\<forall>f. f \<noteq> code @ ''.hgt'' \<and> f \<noteq> code @ ''.hgt.gz'' \<and> f \<noteq> code @ ''.zip''
        \<longrightarrow> files (fetch_tile e dbg ps code w) f = files w f)"
proof (cases "files w (code @ ''.hgt'')")
  case (Some b)
  then show ?thesis by (simp add: fetch_tile_cached)
next
  case None
  obtain r w' where t: "try_urls e dbg ps code (tile_urls code) w = (r, w')"
    by (cases "try_urls e dbg ps code (tile_urls code) w") auto
  from None t have "fetch_tile e dbg ps code w = (if r then w' else logger WARNING (miss_msg ps) [code] w')"
    by (simp add: fetch_tile_def)
  with try_urls_frame [OF t] show ?thesis by simp
qed

lemma fetch_tile_other:
  assumes "c \<noteq> code" and "files w (c @ ''.hgt'') = Some b"
  shows "files (fetch_tile e dbg ps code w) (c @ ''.hgt'') = Some b \<and>
         count_list (hgt_files (fetch_tile e dbg ps code w)) (c @ ''.hgt'') = count_list (hgt_files w) (c @ ''.hgt'') \<and>
         (\<forall>u \<in> set (tile_urls c). count_list (reqs (fetch_tile e dbg ps code w)) u = count_list (reqs w) u)"
proof -
  let ?w' = "fetch_tile e dbg ps code w"
  from fetch_tile_frame [of e dbg ps code w] obtain rs where
    rs: "reqs ?w' = reqs w @ rs" "set rs \<subseteq> set (tile_urls code)" and
    f: "\<forall>f. f \<noteq> code @ ''.hgt'' \<and> f \<noteq> code @ ''.hgt.gz'' \<and> f \<noteq> code @ ''.zip'' \<longrightarrow> files ?w' f = files w f"
    by blast
  from assms(1) have ne: "c @ ''.hgt'' \<noteq> code @ ''.hgt''" by simp
  with f assms(2) have 1: "files ?w' (c @ ''.hgt'') = Some b" by simp
  have "hgt_files ?w' = hgt_files w \<or> hgt_files ?w' = hgt_files w @ [code @ ''.hgt'']"
  proof (cases "files w (code @ ''.hgt'')")
    case None
    from fetch_tile_fresh [OF None, of e dbg ps] show ?thesis by blast
  next
    case (Some b')
    then show ?thesis by (simp add: fetch_tile_cached)
  qed
  with ne have 2: "count_list (hgt_files ?w') (c @ ''.hgt'') = count_list (hgt_files w) (c @ ''.hgt'')"
    by auto
  have 3: "\<forall>u \<in> set (tile_urls c). count_list (reqs ?w') u = count_list (reqs w) u"
  proof
    fix u assume "u \<in> set (tile_urls c)"
    with tile_urls_disjoint [OF assms(1)] rs(2) have "u \<notin> set rs" by blast
    with rs(1) show "count_list (reqs ?w') u = count_list (reqs w) u" by simp
  qed
  from 1 2 3 show ?thesis by blast
qed

lemma fetch_pass_cached:
  assumes "files w (c @ ''.hgt'') = Some b"
  shows "files (fetch_pass e dbg ps codes w) (c @ ''.hgt'') = Some b \<and>
         count_list (hgt_files (fetch_pass e dbg ps codes w)) (c @ ''.hgt'') =
           count_list (hgt_files w) (c @ ''.hgt'') + count_list codes c \<and>
         (\<forall>u \<in> set (tile_urls c). count_list (reqs (fetch_pass e dbg ps codes w)) u = count_list (reqs w) u)"
  using assms
proof (induction codes arbitrary: w)
  case Nil
  then show ?case by (simp add: fetch_pass_def)
next
  case (Cons code codes)
  let ?w1 = "fetch_tile e dbg ps code w"
  have step: "fetch_pass e dbg ps (code # codes) w = fetch_pass e dbg ps codes ?w1"
    by (simp add: fetch_pass_def)
  show ?case
  proof (cases "code = c")
    case True
    with Cons.prems have w1: "?w1 = w\<lparr>hgt_files := hgt_files w @ [c @ ''.hgt'']\<rparr>"
      by (simp add: fetch_tile_cached)
    then have k: "files ?w1 (c @ ''.hgt'') = Some b" using Cons.prems by simp
    from Cons.IH [OF k] w1 True show ?thesis unfolding step by simp
  next
    case False
    then have ne: "c \<noteq> code" by simp
    note o = fetch_tile_other [OF ne Cons.prems, of e dbg ps]
    then have k: "files ?w1 (c @ ''.hgt'') = Some b" by simp
    from Cons.IH [OF k] o False show ?thesis unfolding step by simp
  qed
qed

lemma count_list_distinct: "distinct xs \<Longrightarrow> x \<in> set xs \<Longrightarrow> count_list xs x = 1"
  by (induction xs) auto

text \<open>
  Claim C10. In either pass, a tile whose \<open>.hgt\<close> file is in the output directory when
  the pass starts is taken as it is: its turn only appends the file to \<open>hgt_files\<close>, and
  after the whole pass the file has the same content, it is in \<open>hgt_files\<close> once more than
  before, and none of the tile's mirror URLs has been requested.
\<close>

theorem cached_tile_reused:
  assumes "code \<in> set codes" and "distinct codes" and "files w (code @ ''.hgt'') = Some b"
  shows "fetch_tile e dbg ps code w = w\<lparr>hgt_files := hgt_files w @ [code @ ''.hgt'']\<rparr> \<and>
         files (fetch_pass e dbg ps codes w) (code @ ''.hgt'') = Some b \<and>
         count_list (hgt_files (fetch_pass e dbg ps codes w)) (code @ ''.hgt'') =
           count_list (hgt_files w) (code @ ''.hgt'') + 1 \<and>
         (\<forall>u \<in> set (tile_urls code).
            count_list (reqs (fetch_pass e dbg ps codes w)) u = count_list (reqs w) u)"
proof -
  have one: "count_list codes code = 1"
    using assms(1,2) by (simp add: count_list_distinct)
  from fetch_pass_cached [OF assms(3), of e dbg ps codes] one fetch_tile_cached [OF assms(3), of e dbg ps]
  show ?thesis by simp
qed

theorem cached_tile_reused_witness:
  "''S35W072'' \<in> set [''S35W072'', ''S35W073''] \<and> distinct [''S35W072'', ''S35W073''] \<and>
   files world_cached ''S35W072.hgt'' = Some ''old'' \<and>
   files (fetch_pass env_down False First [''S35W072'', ''S35W073''] world_cached) ''S35W072.hgt'' = Some ''old'' \<and>
   count_list (hgt_files (fetch_pass env_down False First [''S35W072'', ''S35W073''] world_cached)) ''S35W072.hgt'' = 1 \<and>
   count_list (reqs (fetch_pass env_down False First [''S35W072'', ''S35W073''] world_cached))
      ''https://srtm.kurviger.de/SRTM3/S35W072.hgt.gz'' = 0"
proof -
  let ?codes = "[''S35W072'', ''S35W073'']"
  have h1: "''S35W072'' \<in> set ?codes" and h2: "distinct ?codes"
    by simp_all
  have h3: "files world_cached (''S35W072'' @ ''.hgt'') = Some ''old''"
    by (simp add: world_cached_def world0_def)
  have u: "''https://srtm.kurviger.de/SRTM3/S35W072.hgt.gz'' \<in> set (tile_urls ''S35W072'')"
    by (simp add: tile_urls_def)
  have z: "hgt_files world_cached = []" "reqs world_cached = []"
    by (simp_all add: world_cached_def world0_def)
  note t = cached_tile_reused [OF h1 h2 h3, of env_down False First]
  from t have a: "files (fetch_pass env_down False First ?codes world_cached) ''S35W072.hgt'' = Some ''old''"
    by simp
  from t z have b: "count_list (hgt_files (fetch_pass env_down False First ?codes world_cached)) ''S35W072.hgt'' = 1"
    by simp
  from t u z have c: "count_list (reqs (fetch_pass env_down False First ?codes world_cached))
      ''https://srtm.kurviger.de/SRTM3/S35W072.hgt.gz'' = 0"
    by simp
  from h1 h2 h3 a b c show ?thesis by simp
qed

lemma toy_gunzip_abc: "toy_gunzip ''GZabc'' = Some ''abc''"
  by (simp add: toy_gunzip_def)

lemmas eval_defs = fetch_tile_def tile_urls_def try_url_def request_def materialize_def endswith_def
  debug_log_def logger_def write_bytes_def unlink_def Let_def world0_def

text \<open>
  Claim C1. The first pass has no branch for the raw \<open>.hgt\<close> mirror: when only that mirror
  answers with status 200, all five mirrors are requested, no file is written and the tile
  is not accepted. The second pass, on the same input, writes the file and accepts it.
\<close>

theorem first_pass_skips_raw_mirror:
  "reqs (fetch_tile env_raw_only False First ''S35W072'' world0) = tile_urls ''S35W072'' \<and>
   files (fetch_tile env_raw_only False First ''S35W072'' world0) ''S35W072.hgt'' = None \<and>
   hgt_files (fetch_tile env_raw_only False First ''S35W072'' world0) = [] \<and>
   files (fetch_tile env_raw_only False Second ''S35W072'' world0) ''S35W072.hgt'' = Some ''DEM'' \<and>
   hgt_files (fetch_tile env_raw_only False Second ''S35W072'' world0) = [''S35W072.hgt'']"
  by (simp add: eval_defs env_raw_only_def env_down_def)

lemma materialize_decoded:
  assumes "files w (code @ ''.hgt'') = None" and "decode_body e ps url content = Some tile"
  shows "\<exists>w'. materialize e ps code url content w = (True, w') \<and> files w' (code @ ''.hgt'') = Some tile \<and>
              reqs w' = reqs w \<and> hgt_files w' = hgt_files w \<and> logs w' = logs w"
  using assms
  by (auto simp: materialize_def decode_body_def Let_def split: if_splits option.splits)

lemma materialize_undecoded:
  assumes "files w (code @ ''.hgt'') = None" and "decode_body e ps url content = None"
    and "materialize e ps code url content w = (ok, w')"
  shows "files w' (code @ ''.hgt'') = None"
  using assms
  by (auto simp: materialize_def decode_body_def Let_def split: if_splits option.splits)

lemma try_url_yields:
  assumes "files w (code @ ''.hgt'') = None"
    and "mirror_yields e ps url (http_get e (reqs w) url) = Some tile"
  shows "\<exists>w'. try_url e dbg ps code url w = (True, w') \<and> files w' (code @ ''.hgt'') = Some tile \<and>
              hgt_files w' = hgt_files w @ [code @ ''.hgt''] \<and> reqs w' = reqs w @ [url] \<and>
              (length tile < 2000000 \<longrightarrow>
                 (WARNING, size_msg ps, [code, dec_str (length tile)]) \<in> set (logs w'))"
proof -
  from assms(2) obtain content where r: "http_get e (reqs w) url = Response 200 content"
    and d: "decode_body e ps url content = Some tile"
    by (auto simp: mirror_yields_def split: response.splits if_splits)
  let ?w2 = "snd (request e url (debug_log dbg (try_msg ps) [code, url] w))"
  have f2: "files ?w2 (code @ ''.hgt'') = None" using assms(1) by simp
  from materialize_decoded [OF f2 d] obtain w3 where
    m: "materialize e ps code url content ?w2 = (True, w3)" and f3: "files w3 (code @ ''.hgt'') = Some tile"
    and k: "reqs w3 = reqs ?w2" "hgt_files w3 = hgt_files ?w2"
    by blast
  from r m f3 k show ?thesis
    by (simp add: try_url_def request_def Let_def)
qed

lemma try_url_yields_nothing:
  assumes "files w (code @ ''.hgt'') = None"
    and "mirror_yields e ps url (http_get e (reqs w) url) = None"
  shows "\<exists>w'. try_url e dbg ps code url w = (False, w') \<and> files w' (code @ ''.hgt'') = None \<and>
              hgt_files w' = hgt_files w \<and> reqs w' = reqs w @ [url]"
proof -
  obtain r w' where t: "try_url e dbg ps code url w = (r, w')"
    by (cases "try_url e dbg ps code url w") auto
  have "\<not> r"
  proof (cases "http_get e (reqs w) url")
    case Failed
    with t show ?thesis by (auto simp: try_url_def request_def Let_def)
  next
    case (Response st content)
    show ?thesis
    proof (cases "st = 200")
      case False
      with Response t show ?thesis by (auto simp: try_url_def request_def Let_def)
    next
      case True
      let ?w2 = "snd (request e url (debug_log dbg (try_msg ps) [code, url] w))"
      from True Response assms(2) have d: "decode_body e ps url content = None"
        by (simp add: mirror_yields_def)
      have f2: "files ?w2 (code @ ''.hgt'') = None" using assms(1) by simp
      obtain ok w3 where m: "materialize e ps code url content ?w2 = (ok, w3)"
        by (cases "materialize e ps code url content ?w2") auto
      from materialize_undecoded [OF f2 d m] have "files w3 (code @ ''.hgt'') = None" .
      with m True Response t show ?thesis
        by (cases ok) (auto simp: try_url_def request_def Let_def)
    qed
  qed
  with try_url_outcome [OF assms(1) t] try_url_frame [OF t] t show ?thesis by simp
qed

lemma try_urls_first_yield:
  assumes "files w (code @ ''.hgt'') = None" and "k < length urls"
    and "\<forall>j<k. mirror_yields e ps (urls ! j) (http_get e (reqs w @ take j urls) (urls ! j)) = None"
    and "mirror_yields e ps (urls ! k) (http_get e (reqs w @ take k urls) (urls ! k)) = Some tile"
  shows "\<exists>w'. try_urls e dbg ps code urls w = (True, w') \<and> files w' (code @ ''.hgt'') = Some tile \<and>
              hgt_files w' = hgt_files w @ [code @ ''.hgt''] \<and> reqs w' = reqs w @ take (Suc k) urls \<and>
              (length tile < 2000000 \<longrightarrow>
                 (WARNING, size_msg ps, [code, dec_str (length tile)]) \<in> set (logs w'))"
  using assms
proof (induction urls arbitrary: w k)
  case Nil
  then show ?case by simp
next
  case (Cons url urls)
  show ?case
  proof (cases k)
    case 0
    with Cons.prems(4) have y: "mirror_yields e ps url (http_get e (reqs w) url) = Some tile" by simp
    from try_url_yields [OF Cons.prems(1) y, of dbg] 0 show ?thesis by auto
  next
    case (Suc k')
    from Cons.prems(3) Suc have "mirror_yields e ps url (http_get e (reqs w) url) = None"
      by (auto dest: spec [of _ 0])
    from try_url_yields_nothing [OF Cons.prems(1) this, of dbg] obtain w1 where
      t: "try_url e dbg ps code url w = (False, w1)" and f1: "files w1 (code @ ''.hgt'') = None"
      and h1: "hgt_files w1 = hgt_files w" and r1: "reqs w1 = reqs w @ [url]"
      by blast
    from Cons.prems(2) Suc have k': "k' < length urls" by simp
    have a: "\<forall>j<k'. mirror_yields e ps (urls ! j) (http_get e (reqs w1 @ take j urls) (urls ! j)) = None"
    proof (intro allI impI)
      fix j assume "j < k'"
      with Suc have "Suc j < k" by simp
      with Cons.prems(3) have "mirror_yields e ps ((url # urls) ! Suc j)
          (http_get e (reqs w @ take (Suc j) (url # urls)) ((url # urls) ! Suc j)) = None" by blast
      with r1 show "mirror_yields e ps (urls ! j) (http_get e (reqs w1 @ take j urls) (urls ! j)) = None"
        by simp
    qed
    from Cons.prems(4) Suc r1
    have b: "mirror_yields e ps (urls ! k') (http_get e (reqs w1 @ take k' urls) (urls ! k')) = Some tile"
      by simp
    from Cons.IH [OF f1 k' a b] t h1 r1 Suc show ?thesis by auto
  qed
qed

lemma fetch_tile_first_yield:
  assumes "files w (code @ ''.hgt'') = None" and "k < length (tile_urls code)"
    and "\<forall>j<k. mirror_yields e ps (tile_urls code ! j)
                  (http_get e (reqs w @ take j (tile_urls code)) (tile_urls code ! j)) = None"
    and "mirror_yields e ps (tile_urls code ! k)
            (http_get e (reqs w @ take k (tile_urls code)) (tile_urls code ! k)) = Some tile"
  shows "files (fetch_tile e dbg ps code w) (code @ ''.hgt'') = Some tile \<and>
         hgt_files (fetch_tile e dbg ps code w) = hgt_files w @ [code @ ''.hgt''] \<and>
         reqs (fetch_tile e dbg ps code w) = reqs w @ take (Suc k) (tile_urls code) \<and>
         (length tile < 2000000 \<longrightarrow>
            (WARNING, size_msg ps, [code, dec_str (length tile)]) \<in> set (logs (fetch_tile e dbg ps code w)))"
proof -
  from try_urls_first_yield [OF assms, of dbg] obtain w' where
    t: "try_urls e dbg ps code (tile_urls code) w = (True, w')" and
    r: "files w' (code @ ''.hgt'') = Some tile" "hgt_files w' = hgt_files w @ [code @ ''.hgt'']"
       "reqs w' = reqs w @ take (Suc k) (tile_urls code)"
       "length tile < 2000000 \<longrightarrow> (WARNING, size_msg ps, [code, dec_str (length tile)]) \<in> set (logs w')"
    by blast
  from t assms(1) have "fetch_tile e dbg ps code w = w'" by (simp add: fetch_tile_def)
  with r show ?thesis by simp
qed

text \<open>
  Claim C5, as the code has it. In both mirror passes the first mirror that answers with
  status 200 and a body its format branch can unpack has the tile written and taken into
  \<open>hgt_files\<close> whatever its size; the mirrors after it are not requested, and a size
  below 2000000 bytes is logged with a warning. The forced download writes the decoded
  tile and keeps it for the mosaic only when it is larger than 1000000 bytes.
\<close>

theorem size_anomaly_accepted:
  "(files w (code @ ''.hgt'') = None \<and> k < length (tile_urls code) \<and>
    (\<forall>j<k. mirror_yields e ps (tile_urls code ! j)
              (http_get e (reqs w @ take j (tile_urls code)) (tile_urls code ! j)) = None) \<and>
    mirror_yields e ps (tile_urls code ! k)
       (http_get e (reqs w @ take k (tile_urls code)) (tile_urls code ! k)) = Some tile
      \<longrightarrow> files (fetch_tile e dbg ps code w) (code @ ''.hgt'') = Some tile \<and>
          hgt_files (fetch_tile e dbg ps code w) = hgt_files w @ [code @ ''.hgt''] \<and>
          reqs (fetch_tile e dbg ps code w) = reqs w @ take (Suc k) (tile_urls code) \<and>
          (length tile < 2000000 \<longrightarrow>
             (WARNING, size_msg ps, [code, dec_str (length tile)]) \<in> set (logs (fetch_tile e dbg ps code w)))) \<and>
   (http_get e (reqs w)
       (''https://s3.amazonaws.com/elevation-tiles-prod/skadi/'' @ take 3 (tile_code \<lfloor>miny\<rfloor> \<lfloor>minx\<rfloor>)
          @ ''/'' @ tile_code \<lfloor>miny\<rfloor> \<lfloor>minx\<rfloor> @ ''.hgt.gz'') = Response 200 content \<and>
    gunzip e content = Some raw
      \<longrightarrow> files (forced_retry e dbg (minx, miny, maxx, maxy) w) (tile_code \<lfloor>miny\<rfloor> \<lfloor>minx\<rfloor> @ ''.hgt'') = Some raw \<and>
          hgt_files (forced_retry e dbg (minx, miny, maxx, maxy) w) =
            (if length raw > 1000000 then hgt_files w @ [tile_code \<lfloor>miny\<rfloor> \<lfloor>minx\<rfloor> @ ''.hgt''] else hgt_files w))"
proof -
  have loop: "files (fetch_tile e dbg ps code w) (code @ ''.hgt'') = Some tile \<and>
          hgt_files (fetch_tile e dbg ps code w) = hgt_files w @ [code @ ''.hgt''] \<and>
          reqs (fetch_tile e dbg ps code w) = reqs w @ take (Suc k) (tile_urls code) \<and>
          (length tile < 2000000 \<longrightarrow>
             (WARNING, size_msg ps, [code, dec_str (length tile)]) \<in> set (logs (fetch_tile e dbg ps code w)))"
    if "files w (code @ ''.hgt'') = None \<and> k < length (tile_urls code) \<and>
        (\<forall>j<k. mirror_yields e ps (tile_urls code ! j)
              (http_get e (reqs w @ take j (tile_urls code)) (tile_urls code ! j)) = None) \<and>
        mirror_yields e ps (tile_urls code ! k)
          (http_get e (reqs w @ take k (tile_urls code)) (tile_urls code ! k)) = Some tile"
    using that by (intro fetch_tile_first_yield) simp_all
  have forced: "files (forced_retry e dbg (minx, miny, maxx, maxy) w) (tile_code \<lfloor>miny\<rfloor> \<lfloor>minx\<rfloor> @ ''.hgt'') = Some raw \<and>
          hgt_files (forced_retry e dbg (minx, miny, maxx, maxy) w) =
            (if length raw > 1000000 then hgt_files w @ [tile_code \<lfloor>miny\<rfloor> \<lfloor>minx\<rfloor> @ ''.hgt''] else hgt_files w)"
    if "http_get e (reqs w)
       (''https://s3.amazonaws.com/elevation-tiles-prod/skadi/'' @ take 3 (tile_code \<lfloor>miny\<rfloor> \<lfloor>minx\<rfloor>)
          @ ''/'' @ tile_code \<lfloor>miny\<rfloor> \<lfloor>minx\<rfloor> @ ''.hgt.gz'') = Response 200 content \<and>
        gunzip e content = Some raw"
    using that by (simp add: forced_retry_def request_def Let_def)
  from loop forced show ?thesis by blast
qed

lemma fourth_mirror_yields:
  "tile_urls ''S35W072'' ! 3 = ''https://srtmtiles.s3.amazonaws.com/S35W072.hgt.gz''"
  "mirror_yields env_fourth_small First (tile_urls ''S35W072'' ! 3)
     (http_get env_fourth_small (reqs world0 @ take 3 (tile_urls ''S35W072'')) (tile_urls ''S35W072'' ! 3)) = Some ''abc''"
  "mirror_yields env_fourth_small First (tile_urls ''S35W072'' ! 0)
     (http_get env_fourth_small (reqs world0 @ take 0 (tile_urls ''S35W072'')) (tile_urls ''S35W072'' ! 0)) = None"
  "mirror_yields env_fourth_small First (tile_urls ''S35W072'' ! 1)
     (http_get env_fourth_small (reqs world0 @ take 1 (tile_urls ''S35W072'')) (tile_urls ''S35W072'' ! 1)) = None"
  "mirror_yields env_fourth_small First (tile_urls ''S35W072'' ! 2)
     (http_get env_fourth_small (reqs world0 @ take 2 (tile_urls ''S35W072'')) (tile_urls ''S35W072'' ! 2)) = None"
  by (simp_all add: tile_urls_def mirror_yields_def decode_body_def endswith_def env_fourth_small_def
        env_down_def toy_gunzip_abc)

theorem size_anomaly_accepted_witness:
  "files world0 ''S35W072.hgt'' = None \<and> 3 < length (tile_urls ''S35W072'') \<and>
   mirror_yields env_fourth_small First (tile_urls ''S35W072'' ! 0)
     (http_get env_fourth_small (reqs world0 @ take 0 (tile_urls ''S35W072'')) (tile_urls ''S35W072'' ! 0)) = None \<and>
   mirror_yields env_fourth_small First (tile_urls ''S35W072'' ! 1)
     (http_get env_fourth_small (reqs world0 @ take 1 (tile_urls ''S35W072'')) (tile_urls ''S35W072'' ! 1)) = None \<and>
   mirror_yields env_fourth_small First (tile_urls ''S35W072'' ! 2)
     (http_get env_fourth_small (reqs world0 @ take 2 (tile_urls ''S35W072'')) (tile_urls ''S35W072'' ! 2)) = None \<and>
   mirror_yields env_fourth_small First (tile_urls ''S35W072'' ! 3)
     (http_get env_fourth_small (reqs world0 @ take 3 (tile_urls ''S35W072'')) (tile_urls ''S35W072'' ! 3)) = Some ''abc'' \<and>
   files (fetch_tile env_fourth_small False First ''S35W072'' world0) ''S35W072.hgt'' = Some ''abc'' \<and>
   hgt_files (fetch_tile env_fourth_small False First ''S35W072'' world0) = [''S35W072.hgt''] \<and>
   reqs (fetch_tile env_fourth_small False First ''S35W072'' world0) = take 4 (tile_urls ''S35W072'') \<and>
   (WARNING, ''Tile {code} tamano inesperado ({size} bytes).'', [''S35W072'', ''3''])
      \<in> set (logs (fetch_tile env_fourth_small False First ''S35W072'' world0)) \<and>
   http_get env_skadi_small (reqs world0) ''https://s3.amazonaws.com/elevation-tiles-prod/skadi/S35/S35W072.hgt.gz''
      = Response 200 ''GZabc'' \<and>
   gunzip env_skadi_small ''GZabc'' = Some ''abc'' \<and>
   files (forced_retry env_skadi_small False small_box world0) ''S35W072.hgt'' = Some ''abc'' \<and>
   hgt_files (forced_retry env_skadi_small False small_box world0) = []"
proof -
  have h1: "files world0 (''S35W072'' @ ''.hgt'') = None" by (simp add: world0_def)
  have h2: "3 < length (tile_urls ''S35W072'')" by (simp add: tile_urls_def)
  have h3: "\<forall>j<3. mirror_yields env_fourth_small First (tile_urls ''S35W072'' ! j)
              (http_get env_fourth_small (reqs world0 @ take j (tile_urls ''S35W072'')) (tile_urls ''S35W072'' ! j)) = None"
  proof (intro allI impI)
    fix j :: nat assume "j < 3"
    then consider "j = 0" | "j = 1" | "j = 2" by linarith
    then show "mirror_yields env_fourth_small First (tile_urls ''S35W072'' ! j)
              (http_get env_fourth_small (reqs world0 @ take j (tile_urls ''S35W072'')) (tile_urls ''S35W072'' ! j)) = None"
      using fourth_mirror_yields(3,4,5) by cases simp_all
  qed
  note h4 = fourth_mirror_yields(2)
  have z: "hgt_files world0 = []" "reqs world0 = []" by (simp_all add: world0_def)
  have d: "dec_str (length ''abc'') = ''3''" by (simp add: dec_str.simps digit_char_def)
  have b: "small_box = (- (143 / 2), - (69 / 2), - (357 / 5), - (172 / 5))" by (simp add: small_box_def)
  have h5: "http_get env_skadi_small (reqs world0)
       (''https://s3.amazonaws.com/elevation-tiles-prod/skadi/'' @ take 3 (tile_code \<lfloor>- (69 / 2) :: real\<rfloor> \<lfloor>- (143 / 2) :: real\<rfloor>)
          @ ''/'' @ tile_code \<lfloor>- (69 / 2) :: real\<rfloor> \<lfloor>- (143 / 2) :: real\<rfloor> @ ''.hgt.gz'') = Response 200 ''GZabc''"
    by (simp add: small_box_floor tile_code_S35W072 env_skadi_small_def env_down_def)
  have h6: "gunzip env_skadi_small ''GZabc'' = Some ''abc''"
    by (simp add: env_skadi_small_def env_down_def toy_gunzip_abc)
  have a: "files (fetch_tile env_fourth_small False First ''S35W072'' world0) ''S35W072.hgt'' = Some ''abc'' \<and>
      hgt_files (fetch_tile env_fourth_small False First ''S35W072'' world0) = [''S35W072.hgt''] \<and>
      reqs (fetch_tile env_fourth_small False First ''S35W072'' world0) = take 4 (tile_urls ''S35W072'') \<and>
      (WARNING, ''Tile {code} tamano inesperado ({size} bytes).'', [''S35W072'', ''3''])
      \<in> set (logs (fetch_tile env_fourth_small False First ''S35W072'' world0))"
    using size_anomaly_accepted [of world0 "''S35W072''" 3 env_fourth_small First "''abc''" False]
      h1 h2 h3 h4 z d
    by (simp add: size_msg_def)
  have c: "files (forced_retry env_skadi_small False small_box world0) ''S35W072.hgt'' = Some ''abc'' \<and>
   hgt_files (forced_retry env_skadi_small False small_box world0) = []"
    using size_anomaly_accepted [of world0 _ _ env_skadi_small _ _ False "- (69 / 2)" "- (143 / 2)"
        "''GZabc''" "''abc''" "- (357 / 5)" "- (172 / 5)"] h5 h6 z
    unfolding b by (simp add: small_box_floor tile_code_S35W072)
  from h1 h2 fourth_mirror_yields(3,4,5) h4 h5 h6 a c show ?thesis
    by (simp add: small_box_floor tile_code_S35W072)
qed

text \<open>
  The forced download of a tile of three bytes: the file is written and the tile is left
  out of \<open>hgt_files\<close>.
\<close>

theorem forced_retry_rejects_small:
  "files (forced_retry env_skadi_small False small_box world0) ''S35W072.hgt'' = Some ''abc'' \<and>
   hgt_files (forced_retry env_skadi_small False small_box world0) = []"
  by (simp add: forced_retry_def small_box_def small_box_floor tile_code_S35W072 env_skadi_small_def
        env_down_def world0_def request_def toy_gunzip_abc Let_def)

section \<open>Facts about the retry over the full range\<close>

lemma try_urls_all_requested:
  assumes "try_urls e dbg ps code urls w = (False, w')"
  shows "reqs w' = reqs w @ urls"
  using assms
proof (induction urls arbitrary: w)
  case Nil
  then show ?case by simp
next
  case (Cons url urls)
  obtain r1 w1 where t: "try_url e dbg ps code url w = (r1, w1)"
    by (cases "try_url e dbg ps code url w") auto
  with Cons.prems have r1: "\<not> r1" and rest: "try_urls e dbg ps code urls w1 = (False, w')"
    by (cases r1; simp)+
  from try_url_frame [OF t] have "reqs w1 = reqs w @ [url]" by simp
  with Cons.IH [OF rest] show ?case by simp
qed

lemma fetch_tile_turn:
  "\<exists>rs hs. reqs (fetch_tile e dbg ps code w) = reqs w @ rs \<and>
           hgt_files (fetch_tile e dbg ps code w) = hgt_files w @ hs \<and>
           (hs = [code @ ''.hgt''] \<or> hs = [] \<and> rs = tile_urls code)"
proof (cases "files w (code @ ''.hgt'')")
  case (Some b)
  then show ?thesis by (simp add: fetch_tile_cached)
next
  case None
  obtain r w' where t: "try_urls e dbg ps code (tile_urls code) w = (r, w')"
    by (cases "try_urls e dbg ps code (tile_urls code) w") auto
  from try_urls_frame [OF t] obtain rs where rs: "reqs w' = reqs w @ rs" by blast
  show ?thesis
  proof (cases r)
    case True
    with t None have "fetch_tile e dbg ps code w = w'" by (simp add: fetch_tile_def)
    with try_urls_outcome [OF None t] True rs show ?thesis by auto
  next
    case False
    with t None have f: "fetch_tile e dbg ps code w = logger WARNING (miss_msg ps) [code] w'"
      by (simp add: fetch_tile_def)
    from try_urls_all_requested [of e dbg ps code "tile_urls code" w w'] t False
    have "reqs w' = reqs w @ tile_urls code" by simp
    with f try_urls_outcome [OF None t] False show ?thesis by simp
  qed
qed

lemma fetch_pass_turns:
  "\<exists>rs hs. reqs (fetch_pass e dbg ps codes w) = reqs w @ rs \<and>
           hgt_files (fetch_pass e dbg ps codes w) = hgt_files w @ hs \<and>
           (\<forall>code \<in> set codes. code @ ''.hgt'' \<in> set hs \<or> set (tile_urls code) \<subseteq> set rs)"
proof (induction codes arbitrary: w)
  case Nil
  then show ?case by (simp add: fetch_pass_def)
next
  case (Cons c codes)
  let ?w1 = "fetch_tile e dbg ps c w"
  have step: "fetch_pass e dbg ps (c # codes) w = fetch_pass e dbg ps codes ?w1"
    by (simp add: fetch_pass_def)
  from fetch_tile_turn [of e dbg ps c w] obtain rs1 hs1 where
    a: "reqs ?w1 = reqs w @ rs1" "hgt_files ?w1 = hgt_files w @ hs1"
       "hs1 = [c @ ''.hgt''] \<or> hs1 = [] \<and> rs1 = tile_urls c"
    by blast
  from Cons.IH [of ?w1] obtain rs2 hs2 where
    b: "reqs (fetch_pass e dbg ps codes ?w1) = reqs ?w1 @ rs2"
       "hgt_files (fetch_pass e dbg ps codes ?w1) = hgt_files ?w1 @ hs2"
       "\<forall>code \<in> set codes. code @ ''.hgt'' \<in> set hs2 \<or> set (tile_urls code) \<subseteq> set rs2"
    by blast
  have "reqs (fetch_pass e dbg ps (c # codes) w) = reqs w @ (rs1 @ rs2)"
    unfolding step using a b by simp
  moreover have "hgt_files (fetch_pass e dbg ps (c # codes) w) = hgt_files w @ (hs1 @ hs2)"
    unfolding step using a b by simp
  moreover have "\<forall>code \<in> set (c # codes). code @ ''.hgt'' \<in> set (hs1 @ hs2) \<or> set (tile_urls code) \<subseteq> set (rs1 @ rs2)"
    using a(3) b(3) by auto
  ultimately show ?case by blast
qed

lemma full_pass_turns:
  assumes "hgt_files w = []" and "code \<in> set (full_codes box)"
  shows "code @ ''.hgt'' \<in> set (hgt_files (full_pass e dbg box w)) \<or>
         set (tile_urls code) \<subseteq> set (drop (length (reqs w)) (reqs (full_pass e dbg box w)))"
proof -
  let ?w0 = "logger INFO ''Segundo intento tiles completos: {full_codes}'' (full_codes box)
          (logger WARNING ''Sin tiles SRTM exitosos. Reintentando con enumeracion completa de rango y mirrors.'' [] w)"
  from fetch_pass_turns [of e dbg Second "full_codes box" ?w0] obtain rs hs where
    a: "reqs (full_pass e dbg box w) = reqs w @ rs" "hgt_files (full_pass e dbg box w) = hgt_files w @ hs"
       "\<forall>code \<in> set (full_codes box). code @ ''.hgt'' \<in> set hs \<or> set (tile_urls code) \<subseteq> set rs"
    unfolding full_pass_def by auto
  from a assms show ?thesis by auto
qed

lemma fetch_phase_after_corner:
  assumes "hgt_files (corner_pass e dbg box w) = []"
  shows "fetch_phase e dbg box w =
           (if hgt_files (full_pass e dbg box (corner_pass e dbg box w)) = []
            then forced_retry e dbg box
                   (logger WARNING ''Sin tiles SRTM tras segundo intento. Usando fallback directo Mapzen + Copernicus.'' []
                      (full_pass e dbg box (corner_pass e dbg box w)))
            else full_pass e dbg box (corner_pass e dbg box w))"
  using assms by (simp add: fetch_phase_def Let_def)

text \<open>
  Claim C6, as the code has it. The second attempt runs over the codes of every integer
  latitude from \<open>floor(miny)\<close> to \<open>ceil(maxy)\<close> and longitude from \<open>floor(minx)\<close> to
  \<open>ceil(maxx)\<close>, so the code of every cell that holds a point of the box is among them.
  They include the corner plan when the box reaches at least \<open>1e-9\<close> degrees north of the
  south edge and east of the west edge of its south-west cell. When the corner plan leaves
  \<open>hgt_files\<close> empty, the pass over the full range runs, followed by the forced download
  only if it leaves \<open>hgt_files\<close> empty too; in that pass every tile of the range has its
  turn: the pass puts it into \<open>hgt_files\<close>, or requests all its mirrors anew.
\<close>

theorem full_range_covers:
  "(\<forall>la lo. \<lfloor>miny\<rfloor> \<le> la \<and> la \<le> \<lfloor>maxy\<rfloor> \<and> \<lfloor>minx\<rfloor> \<le> lo \<and> lo \<le> \<lfloor>maxx\<rfloor>
       \<longrightarrow> tile_code la lo \<in> set (full_codes (minx, miny, maxx, maxy))) \<and>
   (of_int \<lfloor>miny\<rfloor> \<le> maxy - eps \<and> of_int \<lfloor>minx\<rfloor> \<le> maxx - eps
       \<longrightarrow> set (corner_codes (minx, miny, maxx, maxy)) \<subseteq> set (full_codes (minx, miny, maxx, maxy))) \<and>
   (hgt_files (corner_pass e dbg (minx, miny, maxx, maxy) w) = []
       \<longrightarrow> fetch_phase e dbg (minx, miny, maxx, maxy) w =
             (if hgt_files (full_pass e dbg (minx, miny, maxx, maxy) (corner_pass e dbg (minx, miny, maxx, maxy) w)) = []
              then forced_retry e dbg (minx, miny, maxx, maxy)
                     (logger WARNING ''Sin tiles SRTM tras segundo intento. Usando fallback directo Mapzen + Copernicus.'' []
                        (full_pass e dbg (minx, miny, maxx, maxy) (corner_pass e dbg (minx, miny, maxx, maxy) w)))
              else full_pass e dbg (minx, miny, maxx, maxy) (corner_pass e dbg (minx, miny, maxx, maxy) w)) \<and>
           (\<forall>code \<in> set (full_codes (minx, miny, maxx, maxy)).
              code @ ''.hgt'' \<in> set (hgt_files (full_pass e dbg (minx, miny, maxx, maxy)
                                                  (corner_pass e dbg (minx, miny, maxx, maxy) w))) \<or>
              set (tile_urls code)
                \<subseteq> set (drop (length (reqs (corner_pass e dbg (minx, miny, maxx, maxy) w)))
                           (reqs (full_pass e dbg (minx, miny, maxx, maxy)
                                    (corner_pass e dbg (minx, miny, maxx, maxy) w))))))"
  using full_codes_cells [of miny _ maxy minx _ maxx] corner_subset_full [of miny maxy minx maxx]
    fetch_phase_after_corner [of e dbg "(minx, miny, maxx, maxy)" w]
    full_pass_turns [of "corner_pass e dbg (minx, miny, maxx, maxy) w" _ "(minx, miny, maxx, maxy)" e dbg]
  by blast

lemma corner_pass_no_tiles: "hgt_files (corner_pass env_down False small_box world0) = []"
  by (simp add: corner_pass_def fetch_pass_def eval_defs env_down_def corner_codes_small)

theorem full_range_covers_witness:
  "tile_code (-35) (-72) \<in> set (full_codes small_box) \<and>
   set (corner_codes small_box) \<subseteq> set (full_codes small_box) \<and>
   hgt_files (corner_pass env_down False small_box world0) = [] \<and>
   ''S34W071'' \<in> set (full_codes small_box) \<and>
   (''S34W071.hgt'' \<in> set (hgt_files (full_pass env_down False small_box
                                         (corner_pass env_down False small_box world0))) \<or>
    set (tile_urls ''S34W071'')
      \<subseteq> set (drop (length (reqs (corner_pass env_down False small_box world0)))
                 (reqs (full_pass env_down False small_box (corner_pass env_down False small_box world0)))))"
proof -
  have b: "small_box = (- (143 / 2), - (69 / 2), - (357 / 5), - (172 / 5))" by (simp add: small_box_def)
  have e: "of_int \<lfloor>(- (69 / 2) :: real)\<rfloor> \<le> (- (172 / 5) :: real) - eps \<and>
           of_int \<lfloor>(- (143 / 2) :: real)\<rfloor> \<le> (- (357 / 5) :: real) - eps"
    by (simp add: small_box_floor eps_def)
  have c: "hgt_files (corner_pass env_down False (- (143 / 2), - (69 / 2), - (357 / 5), - (172 / 5)) world0) = []"
    using corner_pass_no_tiles unfolding b .
  have m: "''S34W071'' \<in> set (full_codes small_box)" by (simp add: full_codes_small)
  note t = full_range_covers [of "- (69 / 2)" "- (172 / 5)" "- (143 / 2)" "- (357 / 5)" env_down False world0]
  from t small_box_floor have 1: "tile_code (-35) (-72) \<in> set (full_codes small_box)"
    unfolding b by simp
  from t e have 2: "set (corner_codes small_box) \<subseteq> set (full_codes small_box)"
    unfolding b by blast
  from t c m have 3: "''S34W071.hgt'' \<in> set (hgt_files (full_pass env_down False small_box
                                         (corner_pass env_down False small_box world0))) \<or>
    set (tile_urls ''S34W071'')
      \<subseteq> set (drop (length (reqs (corner_pass env_down False small_box world0)))
                 (reqs (full_pass env_down False small_box (corner_pass env_down False small_box world0))))"
    unfolding b by fastforce
  from 1 2 3 m corner_pass_no_tiles show ?thesis by blast
qed

text \<open>
  For \<open>thin_box\<close> the corner plan holds the tile S35W072 of the row below, which the full
  range, starting at \<open>floor(miny)\<close>, does not.
\<close>

theorem full_range_misses_corner: "\<not> set (corner_codes thin_box) \<subseteq> set (full_codes thin_box)"
  by code_simp

section \<open>Facts about the satellite fallback and the stages of main\<close>

lemmas stage_defs = main_stages_def srtm_stage_def ide_stage_def wfs_step_def download_boundaries_def
  wfs_url_or_default_def download_boundaries_dpa_zip_def save_osm_boundary_fallback_def
  download_srtm_tiles_def load_boundary_for_dem_def after_fetch_def fetch_phase_def corner_pass_def
  full_pass_def fetch_pass_def mosaic_stage_def
  mosaic_done_def mosaic_failed_def try_reproject_def reproject_dem_def reprojected_name_def

lemma load_boundary_frame:
  "files (snd (load_boundary_for_dem e comuna dbg w)) = files w \<and>
   reqs (snd (load_boundary_for_dem e comuna dbg w)) = reqs w \<and>
   boundary_gdf (snd (load_boundary_for_dem e comuna dbg w)) = boundary_gdf w"
  by (simp add: load_boundary_for_dem_def Let_def split: option.splits)

lemma no_tiles_fetched:
  "hgt_files (after_fetch env_no_tiles False small_bnd world0) = []"
  by (simp add: stage_defs eval_defs env_no_tiles_def env_down_def forced_retry_def small_box_floor
        small_bnd_def corner_codes_small [unfolded small_box_def] full_codes_small [unfolded small_box_def]
        small_box_def tile_code_S35W072)

lemma tif_name:
  assumes "last f = CHR ''f''"
  shows "f \<noteq> c @ ''.hgt'' \<and> f \<noteq> c @ ''.hgt.gz'' \<and> f \<noteq> c @ ''.zip''"
proof -
  have "last (c @ ''.hgt'') \<noteq> CHR ''f''" "last (c @ ''.hgt.gz'') \<noteq> CHR ''f''" "last (c @ ''.zip'') \<noteq> CHR ''f''"
    by simp_all
  with assms show ?thesis by metis
qed

lemma fetch_tile_keeps_tif:
  assumes "last f = CHR ''f''"
  shows "files (fetch_tile e dbg ps c w) f = files w f"
  using fetch_tile_frame [of e dbg ps c w] tif_name [OF assms, of c] by blast

lemma fetch_pass_keeps_tif:
  assumes "last f = CHR ''f''"
  shows "files (fetch_pass e dbg ps codes w) f = files w f"
proof (induction codes arbitrary: w)
  case Nil
  then show ?case by (simp add: fetch_pass_def)
next
  case (Cons c codes)
  have step: "fetch_pass e dbg ps (c # codes) w = fetch_pass e dbg ps codes (fetch_tile e dbg ps c w)"
    by (simp add: fetch_pass_def)
  from Cons.IH [of "fetch_tile e dbg ps c w"] fetch_tile_keeps_tif [OF assms, of e dbg ps c w]
  show ?case unfolding step by simp
qed

lemma forced_retry_keeps_tif:
  assumes "last f = CHR ''f''"
  shows "files (forced_retry e dbg box w) f = files w f"
proof -
  obtain minx miny maxx maxy where b: "box = (minx, miny, maxx, maxy)" by (cases box) auto
  from tif_name [OF assms, of "tile_code \<lfloor>miny\<rfloor> \<lfloor>minx\<rfloor>"] show ?thesis
    unfolding b
    by (auto simp: forced_retry_def request_def Let_def debug_log_def split: response.splits option.splits)
qed

lemma after_fetch_keeps_tif:
  assumes "last f = CHR ''f''"
  shows "files (after_fetch e dbg bnd w) f = files w f"
  by (simp add: after_fetch_def fetch_phase_def corner_pass_def full_pass_def Let_def
        fetch_pass_keeps_tif [OF assms] forced_retry_keeps_tif [OF assms])

text \<open>
  Claim C7. When the catalog search over the bounding box widened by 0.05 degrees returns
  no item, the fallback returns False, logs a warning and leaves every file as it was; in
  particular it does not write \<open>copernicus_dem.tif\<close>. So \<open>download_srtm_tiles\<close>, when the
  three tiers of fetching gave no tile, returns False with \<open>copernicus_dem.tif\<close> as it was
  before the call.
\<close>

theorem fallback_without_items:
  assumes "total_bounds bnd = (minx, miny, maxx, maxy)"
    and "stac_search e (minx - 5 / 100, miny - 5 / 100, maxx + 5 / 100, maxy + 5 / 100) = Some []"
  shows "copernicus_fallback e dbg bnd w =
           (False, logger WARNING ''No se encontro Copernicus DEM para bbox ampliado.'' [] w) \<and>
         files (snd (copernicus_fallback e dbg bnd w)) = files w \<and>
         (load_boundary_for_dem e comuna dbg w0 = (Some bnd, w1) \<and> nrows bnd \<noteq> 0 \<and>
          hgt_files (after_fetch e dbg bnd w1) = []
            \<longrightarrow> fst (download_srtm_tiles e comuna dbg w0) = False \<and>
                files (snd (download_srtm_tiles e comuna dbg w0)) ''copernicus_dem.tif''
                  = files w0 ''copernicus_dem.tif'')"
proof -
  have fb: "copernicus_fallback e dbg bnd w =
           (False, logger WARNING ''No se encontro Copernicus DEM para bbox ampliado.'' [] w)" for w
    using assms by (simp add: copernicus_fallback_def)
  have fn: "fst (download_srtm_tiles e comuna dbg w0) = False \<and>
            files (snd (download_srtm_tiles e comuna dbg w0)) ''copernicus_dem.tif''
              = files w0 ''copernicus_dem.tif''"
    if h: "load_boundary_for_dem e comuna dbg w0 = (Some bnd, w1) \<and> nrows bnd \<noteq> 0 \<and>
           hgt_files (after_fetch e dbg bnd w1) = []"
  proof -
    from h have d: "download_srtm_tiles e comuna dbg w0 = copernicus_fallback e dbg bnd (after_fetch e dbg bnd w1)"
      by (simp add: download_srtm_tiles_def Let_def)
    from load_boundary_frame [of e comuna dbg w0] h have "files w1 = files w0" by simp
    moreover have "files (after_fetch e dbg bnd w1) ''copernicus_dem.tif'' = files w1 ''copernicus_dem.tif''"
      by (rule after_fetch_keeps_tif) simp
    ultimately show ?thesis unfolding d fb by simp
  qed
  from fb [of w] fn show ?thesis by simp
qed

theorem fallback_without_items_witness:
  "total_bounds small_bnd = small_box \<and>
   fst (copernicus_fallback env_no_tiles False small_bnd world0) = False \<and>
   files (snd (copernicus_fallback env_no_tiles False small_bnd world0)) ''copernicus_dem.tif'' = None \<and>
   load_boundary_for_dem env_no_tiles ''Rengo'' False world0 = (Some small_bnd, world0) \<and>
   nrows small_bnd \<noteq> 0 \<and>
   hgt_files (after_fetch env_no_tiles False small_bnd world0) = [] \<and>
   fst (download_srtm_tiles env_no_tiles ''Rengo'' False world0) = False \<and>
   files (snd (download_srtm_tiles env_no_tiles ''Rengo'' False world0)) ''copernicus_dem.tif'' = None"
proof -
  have h1: "total_bounds small_bnd = (- (143 / 2), - (69 / 2), - (357 / 5), - (172 / 5))"
    by (simp add: small_bnd_def small_box_def)
  have h2: "stac_search env_no_tiles (- (143 / 2) - 5 / 100, - (69 / 2) - 5 / 100, - (357 / 5) + 5 / 100, - (172 / 5) + 5 / 100) = Some []"
    by (simp add: env_no_tiles_def env_down_def)
  have h3: "load_boundary_for_dem env_no_tiles ''Rengo'' False world0 = (Some small_bnd, world0)"
    by (simp add: load_boundary_for_dem_def env_no_tiles_def env_down_def world0_def debug_log_def)
  have h4: "nrows small_bnd \<noteq> 0" by (simp add: small_bnd_def)
  note h5 = no_tiles_fetched
  have z: "files world0 ''copernicus_dem.tif'' = None" by (simp add: world0_def)
  note t = fallback_without_items [OF h1 h2, of False world0 "''Rengo''" world0 world0]
  from t h3 h4 h5 z have a: "fst (copernicus_fallback env_no_tiles False small_bnd world0) = False \<and>
     files (snd (copernicus_fallback env_no_tiles False small_bnd world0)) ''copernicus_dem.tif'' = None \<and>
     fst (download_srtm_tiles env_no_tiles ''Rengo'' False world0) = False \<and>
     files (snd (download_srtm_tiles env_no_tiles ''Rengo'' False world0)) ''copernicus_dem.tif'' = None"
    by simp
  from a h1 h3 h4 h5 show ?thesis by (simp add: small_box_def)
qed

lemma srtm_without_boundary:
  assumes "fst (load_boundary_for_dem e comuna dbg w) = None \<or>
           (\<exists>bnd. fst (load_boundary_for_dem e comuna dbg w) = Some bnd \<and> nrows bnd = 0)"
  shows "download_srtm_tiles e comuna dbg w =
           (False, logger WARNING ''No hay limites para SRTM.'' [] (snd (load_boundary_for_dem e comuna dbg w)))"
proof -
  obtain ob w1 where l: "load_boundary_for_dem e comuna dbg w = (ob, w1)"
    by (cases "load_boundary_for_dem e comuna dbg w") auto
  with assms show ?thesis by (auto simp: download_srtm_tiles_def)
qed

lemma download_boundaries_bgdf:
  "boundary_gdf (snd (download_boundaries e ov w)) = boundary_gdf w"
  by (simp add: download_boundaries_def request_def Let_def split: response.splits)

lemma wfs_step_bgdf: "boundary_gdf (snd (wfs_step e ops w)) = boundary_gdf w"
proof (cases "opt_skip_wfs ops")
  case True
  then show ?thesis by (simp add: wfs_step_def)
next
  case False
  obtain ok w1 where d: "download_boundaries e (opt_wfs_url ops) w = (ok, w1)"
    by (cases "download_boundaries e (opt_wfs_url ops) w") auto
  from download_boundaries_bgdf [of e "opt_wfs_url ops" w] d have "boundary_gdf w1 = boundary_gdf w" by simp
  with False d show ?thesis by (simp add: wfs_step_def)
qed

lemma dpa_bgdf:
  "boundary_gdf (snd (download_boundaries_dpa_zip e url name dbg w)) = boundary_gdf w"
  by (simp add: download_boundaries_dpa_zip_def request_def Let_def split: response.splits option.splits)

lemma save_osm_failed:
  assumes "save_osm_boundary_fallback e w = (False, w')"
  shows "(boundary_gdf w = None \<or> (\<exists>g. boundary_gdf w = Some g \<and> nrows g = 0)) \<and>
         w' = logger WARNING ''No hay geometria disponible para fallback de limites.'' [] w"
  using assms by (auto simp: save_osm_boundary_fallback_def split: option.splits if_splits)

lemma ide_stage_all_failed:
  assumes "fst (ide_stage e ops w) = (False, False, False)"
  shows "(boundary_gdf w = None \<or> (\<exists>g. boundary_gdf w = Some g \<and> nrows g = 0)) \<and>
         boundary_gdf (snd (ide_stage e ops w)) = boundary_gdf w \<and>
         fst (wfs_step e ops w) = False \<and>
         fst (download_boundaries_dpa_zip e (opt_dpa_url ops) (opt_comuna ops) (opt_debug ops)
                (snd (wfs_step e ops w))) = False \<and>
         (WARNING, ''No hay geometria disponible para fallback de limites.'', [])
            \<in> set (logs (snd (ide_stage e ops w)))"
proof -
  obtain ok_wfs w1 where a: "wfs_step e ops w = (ok_wfs, w1)"
    by (cases "wfs_step e ops w") auto
  obtain ok_dpa w2 where b: "download_boundaries_dpa_zip e (opt_dpa_url ops) (opt_comuna ops) (opt_debug ops) w1 = (ok_dpa, w2)"
    by (cases "download_boundaries_dpa_zip e (opt_dpa_url ops) (opt_comuna ops) (opt_debug ops) w1") auto
  let ?w2' = "logger INFO ''Usando fallback OSM para limites (geocode_to_gdf).'' [] w2"
  obtain ok_osm w3 where c: "save_osm_boundary_fallback e ?w2' = (ok_osm, w3)"
    by (cases "save_osm_boundary_fallback e ?w2'") auto
  from assms a b c have r: "\<not> ok_wfs" "\<not> ok_dpa" "\<not> ok_osm" and s: "snd (ide_stage e ops w) = w3"
    by (auto simp: ide_stage_def split: if_splits)
  from wfs_step_bgdf [of e ops w] a have g1: "boundary_gdf w1 = boundary_gdf w" by simp
  from dpa_bgdf [of e "opt_dpa_url ops" "opt_comuna ops" "opt_debug ops" w1] b g1
  have g2: "boundary_gdf w2 = boundary_gdf w" by simp
  from r(3) c have "save_osm_boundary_fallback e ?w2' = (False, w3)" by simp
  from save_osm_failed [OF this] g2
  have n: "boundary_gdf w = None \<or> (\<exists>g. boundary_gdf w = Some g \<and> nrows g = 0)"
    and w3: "w3 = logger WARNING ''No hay geometria disponible para fallback de limites.'' [] ?w2'"
    by simp_all
  from w3 g2 have g3: "boundary_gdf w3 = boundary_gdf w" by simp
  from w3 have l: "(WARNING, ''No hay geometria disponible para fallback de limites.'', []) \<in> set (logs w3)"
    by simp
  from n g3 l r a b s show ?thesis by simp
qed

lemma load_boundary_none:
  assumes "boundary_gdf w = None \<or> (\<exists>g. boundary_gdf w = Some g \<and> nrows g = 0)"
    and "has_geocode e \<longrightarrow>
           (\<forall>g g'. geocode e (comuna @ '', Chile'') = Some g \<and> to_wgs84 e g = Some g' \<longrightarrow> nrows g' = 0)"
    and "\<forall>g g'. to_wgs84 e g = Some g' \<longrightarrow> nrows g' = nrows g"
  shows "fst (load_boundary_for_dem e comuna dbg w) = None \<or>
         (\<exists>bnd. fst (load_boundary_for_dem e comuna dbg w) = Some bnd \<and> nrows bnd = 0)"
proof (cases "fst (load_boundary_for_dem e comuna dbg w)")
  case None
  then show ?thesis by simp
next
  case (Some bnd)
  have "nrows bnd = 0"
  proof (cases "case boundary_gdf w of None \<Rightarrow> None | Some g \<Rightarrow> to_wgs84 e g")
    case (Some g')
    with \<open>fst (load_boundary_for_dem e comuna dbg w) = Some bnd\<close> have eq: "g' = bnd"
      by (simp add: load_boundary_for_dem_def)
    from Some obtain g where g: "boundary_gdf w = Some g" "to_wgs84 e g = Some g'"
      by (auto split: option.splits)
    with assms(1) have "nrows g = 0" by auto
    with assms(3) g eq show ?thesis by auto
  next
    case None
    with \<open>fst (load_boundary_for_dem e comuna dbg w) = Some bnd\<close>
    have "has_geocode e \<and> (\<exists>g. geocode e (comuna @ '', Chile'') = Some g \<and> to_wgs84 e g = Some bnd)"
      by (auto simp: load_boundary_for_dem_def Let_def split: if_splits option.splits)
    with assms(2) show ?thesis by blast
  qed
  with Some show ?thesis by simp
qed

text \<open>
  Claim C2. Every boundary source fails: in the boundary block of \<open>main\<close> the WFS query,
  the DPA archive and the saving of the OSM geometry, and in \<open>_load_boundary_for_dem\<close> the
  geocoding of the comuna, the last resort, gives no boundary with rows. Then the boundary
  block has logged that no geometry is there, and \<open>download_srtm_tiles\<close> returns False at
  once and says so in the log: nothing is requested and no file is written, so neither
  tile fetching nor the satellite fallback runs. \<open>main\<close> logs the failed stage and ends
  with the metadata. Bringing a geometry to EPSG:4326 is taken to keep its number of rows.
\<close>

theorem no_elevation_without_boundary:
  assumes "fst (ide_stage e ops w) = (False, False, False)"
    and "has_geocode e \<longrightarrow>
           (\<forall>g g'. geocode e (opt_raw_comuna ops @ '', Chile'') = Some g \<and> to_wgs84 e g = Some g'
                     \<longrightarrow> nrows g' = 0)"
    and "\<forall>g g'. to_wgs84 e g = Some g' \<longrightarrow> nrows g' = nrows g"
  shows "(WARNING, ''No hay geometria disponible para fallback de limites.'', [])
            \<in> set (logs (snd (ide_stage e ops w))) \<and>
         fst (download_srtm_tiles e (opt_raw_comuna ops) (opt_debug ops) (snd (ide_stage e ops w))) = False \<and>
         reqs (snd (download_srtm_tiles e (opt_raw_comuna ops) (opt_debug ops) (snd (ide_stage e ops w))))
           = reqs (snd (ide_stage e ops w)) \<and>
         files (snd (download_srtm_tiles e (opt_raw_comuna ops) (opt_debug ops) (snd (ide_stage e ops w))))
           = files (snd (ide_stage e ops w)) \<and>
         (WARNING, ''No hay limites para SRTM.'', [])
            \<in> set (logs (snd (download_srtm_tiles e (opt_raw_comuna ops) (opt_debug ops) (snd (ide_stage e ops w))))) \<and>
         (opt_sources ops = [''ide'', ''srtm'']
            \<longrightarrow> main_stages e ops w =
                  create_metadata e
                    (logger WARNING ''Fallo descarga SRTM (sin tiles validos).'' []
                       (snd (download_srtm_tiles e (opt_raw_comuna ops) (opt_debug ops) (snd (ide_stage e ops w))))))"
proof -
  let ?w1 = "snd (ide_stage e ops w)"
  let ?r = "download_srtm_tiles e (opt_raw_comuna ops) (opt_debug ops) ?w1"
  note a = ide_stage_all_failed [OF assms(1)]
  from a have n: "boundary_gdf ?w1 = None \<or> (\<exists>g. boundary_gdf ?w1 = Some g \<and> nrows g = 0)" by simp
  note l = load_boundary_none [OF n assms(2,3), of "opt_debug ops"]
  note d = srtm_without_boundary [OF l]
  note f = load_boundary_frame [of e "opt_raw_comuna ops" "opt_debug ops" ?w1]
  from d have 1: "fst ?r = False" by simp
  from d f have 2: "reqs (snd ?r) = reqs ?w1" "files (snd ?r) = files ?w1" by simp_all
  from d have 3: "(WARNING, ''No hay limites para SRTM.'', []) \<in> set (logs (snd ?r))" by simp
  have 4: "main_stages e ops w =
             create_metadata e (logger WARNING ''Fallo descarga SRTM (sin tiles validos).'' [] (snd ?r))"
    if "opt_sources ops = [''ide'', ''srtm'']"
  proof -
    obtain ok w2 where p: "?r = (ok, w2)" by (cases ?r) auto
    with 1 have "\<not> ok" by simp
    with p that show ?thesis by (simp add: main_stages_def srtm_stage_def)
  qed
  from a 1 2 3 4 show ?thesis by blast
qed

theorem no_elevation_without_boundary_witness:
  "fst (ide_stage env_down ops_ide_srtm world0) = (False, False, False) \<and>
   geocode env_down (opt_raw_comuna ops_ide_srtm @ '', Chile'') = None \<and>
   fst (download_srtm_tiles env_down ''Rengo'' False (snd (ide_stage env_down ops_ide_srtm world0))) = False \<and>
   reqs (snd (download_srtm_tiles env_down ''Rengo'' False (snd (ide_stage env_down ops_ide_srtm world0))))
     = reqs (snd (ide_stage env_down ops_ide_srtm world0)) \<and>
   files (snd (download_srtm_tiles env_down ''Rengo'' False (snd (ide_stage env_down ops_ide_srtm world0))))
     = files (snd (ide_stage env_down ops_ide_srtm world0)) \<and>
   reqs (main_stages env_down ops_ide_srtm world0) =
     [''https://www.ide.cl/geoserver/wfs'',
      ''https://www.geoportal.cl/geoportal/catalog/download/912598ad-ac92-35f6-8045-098f214bd9c2'']"
proof -
  have h1: "fst (ide_stage env_down ops_ide_srtm world0) = (False, False, False)"
    by (simp add: ide_stage_def wfs_step_def download_boundaries_def wfs_url_or_default_def
          download_boundaries_dpa_zip_def save_osm_boundary_fallback_def request_def logger_def
          Let_def world0_def env_down_def ops_ide_srtm_def)
  have g: "geocode env_down (opt_raw_comuna ops_ide_srtm @ '', Chile'') = None"
    by (simp add: env_down_def)
  then have h2: "has_geocode env_down \<longrightarrow>
           (\<forall>g g'. geocode env_down (opt_raw_comuna ops_ide_srtm @ '', Chile'') = Some g \<and>
                    to_wgs84 env_down g = Some g' \<longrightarrow> nrows g' = 0)"
    by simp
  have h3: "\<forall>g g'. to_wgs84 env_down g = Some g' \<longrightarrow> nrows g' = nrows g"
    by (simp add: env_down_def)
  have o: "opt_raw_comuna ops_ide_srtm = ''Rengo''" "opt_debug ops_ide_srtm = False"
    "opt_sources ops_ide_srtm = [''ide'', ''srtm'']"
    by (simp_all add: ops_ide_srtm_def)
  have r: "reqs (snd (ide_stage env_down ops_ide_srtm world0)) =
     [''https://www.ide.cl/geoserver/wfs'',
      ''https://www.geoportal.cl/geoportal/catalog/download/912598ad-ac92-35f6-8045-098f214bd9c2'']"
    by (simp add: ide_stage_def wfs_step_def download_boundaries_def wfs_url_or_default_def
          default_wfs_url_def download_boundaries_dpa_zip_def save_osm_boundary_fallback_def
          request_def logger_def Let_def world0_def env_down_def ops_ide_srtm_def)
  have c: "create_metadata env_down = (\<lambda>w. w)" by (simp add: env_down_def)
  note t = no_elevation_without_boundary [OF h1 h2 h3]
  from t o r c have
    "fst (download_srtm_tiles env_down ''Rengo'' False (snd (ide_stage env_down ops_ide_srtm world0))) = False \<and>
     reqs (snd (download_srtm_tiles env_down ''Rengo'' False (snd (ide_stage env_down ops_ide_srtm world0))))
       = reqs (snd (ide_stage env_down ops_ide_srtm world0)) \<and>
     files (snd (download_srtm_tiles env_down ''Rengo'' False (snd (ide_stage env_down ops_ide_srtm world0))))
       = files (snd (ide_stage env_down ops_ide_srtm world0)) \<and>
     reqs (main_stages env_down ops_ide_srtm world0) =
       [''https://www.ide.cl/geoserver/wfs'',
        ''https://www.geoportal.cl/geoportal/catalog/download/912598ad-ac92-35f6-8045-098f214bd9c2'']"
    by simp
  with h1 g show ?thesis by simp
qed

lemma download_boundaries_result:
  "fst (download_boundaries e ov w) =
     (case http_get e (reqs w) (wfs_url_or_default ov) of Response st body \<Rightarrow> st = 200 | Failed \<Rightarrow> False)"
  by (simp add: download_boundaries_def request_def Let_def split: response.splits)

lemma download_boundaries_reqs:
  "reqs (snd (download_boundaries e ov w)) = reqs w @ [wfs_url_or_default ov]"
  by (simp add: download_boundaries_def request_def Let_def split: response.splits)

lemma download_boundaries_saves:
  "http_get e (reqs w) (wfs_url_or_default ov) = Response 200 body \<Longrightarrow>
   files (snd (download_boundaries e ov w)) ''comuna_boundaries.geojson'' = Some body"
  by (simp add: download_boundaries_def request_def Let_def)

lemma dpa_reqs:
  "reqs (snd (download_boundaries_dpa_zip e url name dbg w)) = reqs w @ [url]"
  by (simp add: download_boundaries_dpa_zip_def request_def Let_def split: response.splits option.splits)

lemma save_osm_reqs:
  "reqs (snd (save_osm_boundary_fallback e w)) = reqs w"
  by (simp add: save_osm_boundary_fallback_def split: option.splits)

lemma ide_stage_reqs:
  assumes "\<not> opt_skip_wfs ops"
  shows "reqs (snd (ide_stage e ops w)) =
           reqs w @ (if fst (download_boundaries e (opt_wfs_url ops) w)
                     then [wfs_url_or_default (opt_wfs_url ops)]
                     else [wfs_url_or_default (opt_wfs_url ops), opt_dpa_url ops])"
proof -
  obtain ok w1 where d: "download_boundaries e (opt_wfs_url ops) w = (ok, w1)"
    by (cases "download_boundaries e (opt_wfs_url ops) w") auto
  from download_boundaries_reqs [of e "opt_wfs_url ops" w] d
  have r1: "reqs w1 = reqs w @ [wfs_url_or_default (opt_wfs_url ops)]" by simp
  show ?thesis
  proof (cases ok)
    case True
    with d assms r1 show ?thesis by (simp add: ide_stage_def wfs_step_def)
  next
    case False
    let ?w1' = "logger WARNING ''Limites WFS no descargados. Se intentara DPA o fallback.'' [] w1"
    obtain okd w2 where p: "download_boundaries_dpa_zip e (opt_dpa_url ops) (opt_comuna ops) (opt_debug ops) ?w1' = (okd, w2)"
      by (cases "download_boundaries_dpa_zip e (opt_dpa_url ops) (opt_comuna ops) (opt_debug ops) ?w1'") auto
    from dpa_reqs [of e "opt_dpa_url ops" "opt_comuna ops" "opt_debug ops" ?w1'] p r1
    have r2: "reqs w2 = reqs w @ [wfs_url_or_default (opt_wfs_url ops), opt_dpa_url ops]" by simp
    let ?w2' = "logger INFO ''Usando fallback OSM para limites (geocode_to_gdf).'' [] w2"
    obtain oko w3 where q: "save_osm_boundary_fallback e ?w2' = (oko, w3)"
      by (cases "save_osm_boundary_fallback e ?w2'") auto
    from save_osm_reqs [of e ?w2'] q r2
    have r3: "reqs w3 = reqs w @ [wfs_url_or_default (opt_wfs_url ops), opt_dpa_url ops]" by simp
    from False d assms p q r2 r3 show ?thesis
      by (simp add: ide_stage_def wfs_step_def)
  qed
qed

text \<open>
  What \<open>download_boundaries\<close> does: it succeeds exactly when the request returns with status
  200, writes the body as it is, and unless WFS is skipped the DPA archive is requested
  exactly when the query did not succeed.
\<close>

lemma wfs_success_is_status_200:
  "fst (download_boundaries e ov w) =
     (case http_get e (reqs w) (wfs_url_or_default ov) of Response st body \<Rightarrow> st = 200 | Failed \<Rightarrow> False) \<and>
   (\<forall>body. http_get e (reqs w) (wfs_url_or_default ov) = Response 200 body
      \<longrightarrow> files (snd (download_boundaries e ov w)) ''comuna_boundaries.geojson'' = Some body) \<and>
   (\<not> opt_skip_wfs ops
      \<longrightarrow> reqs (snd (ide_stage e ops w)) =
            reqs w @ (if fst (download_boundaries e (opt_wfs_url ops) w)
                      then [wfs_url_or_default (opt_wfs_url ops)]
                      else [wfs_url_or_default (opt_wfs_url ops), opt_dpa_url ops]))"
  using download_boundaries_result [of e ov w] download_boundaries_saves [of e w ov]
    ide_stage_reqs [of ops e w]
  by blast

text \<open>
  Claim C9. The WFS service answers with status 200 and a feature collection without
  features: \<open>download_boundaries\<close> returns True and saves the empty collection, and the
  boundary block goes on to neither the DPA archive nor the OSM geometry. The other
  boundary sources count an empty result as a failure (\<open>download_boundaries_dpa_zip\<close> on a
  filter without rows, \<open>save_osm_boundary_fallback\<close> on a geometry without rows).
\<close>

theorem wfs_empty_collection_succeeds:
  "fst (download_boundaries env_wfs_empty None world0) = True \<and>
   files (snd (download_boundaries env_wfs_empty None world0)) ''comuna_boundaries.geojson''
     = Some empty_feature_collection \<and>
   fst (ide_stage env_wfs_empty ops_ide_srtm world0) = (True, False, False) \<and>
   reqs (snd (ide_stage env_wfs_empty ops_ide_srtm world0)) = [''https://www.ide.cl/geoserver/wfs'']"
  by (simp add: ide_stage_def wfs_step_def download_boundaries_def wfs_url_or_default_def
        default_wfs_url_def request_def logger_def write_bytes_def Let_def world0_def
        env_wfs_empty_def env_down_def ops_ide_srtm_def)

section \<open>Facts about the reprojected raster's file\<close>

text \<open>
  The output name differs from the source name, so \<open>_reproject_dem\<close> leaves its source as
  it was, and a second run on the same path and target reads the same source and writes
  the same file again.
\<close>

lemma stem_ends_at_dot:
  assumes "length (takeWhile (\<lambda>c. c \<noteq> CHR ''.'') (rev name)) + 1 < length name"
  shows "name ! (length name - length (takeWhile (\<lambda>c. c \<noteq> CHR ''.'') (rev name)) - 1) = CHR ''.''"
proof -
  let ?suf = "takeWhile (\<lambda>c. c \<noteq> CHR ''.'') (rev name)"
  from assms have l: "length ?suf < length (rev name)" by simp
  from nth_length_takeWhile [OF l] have "rev name ! length ?suf = CHR ''.''" by simp
  moreover from assms have "rev name ! length ?suf = name ! (length name - Suc (length ?suf))"
    by (intro rev_nth) simp
  ultimately show ?thesis by simp
qed

lemma reprojected_name_differs: "reprojected_name dem_path target_epsg \<noteq> dem_path"
proof
  let ?suf = "takeWhile (\<lambda>c. c \<noteq> CHR ''.'') (rev dem_path)"
  let ?n = "length dem_path - length ?suf - 1"
  let ?tail = "''_'' @ dec_str target_epsg @ ''.tif''"
  assume eq: "reprojected_name dem_path target_epsg = dem_path"
  show False
  proof (cases "0 < length ?suf \<and> length ?suf + 1 < length dem_path")
    case False
    then have "path_stem dem_path = dem_path" unfolding path_stem_def Let_def by (rule if_not_P)
    with eq show False by (simp add: reprojected_name_def)
  next
    case True
    then have "path_stem dem_path = take ?n dem_path" unfolding path_stem_def Let_def by (rule if_P)
    with eq have e: "take ?n dem_path @ ?tail = dem_path"
      by (simp add: reprojected_name_def)
    from True have n: "?n < length dem_path" by arith
    then have "length (take ?n dem_path) = ?n" by simp
    then have "(take ?n dem_path @ ?tail) ! ?n = ?tail ! 0"
      by (simp add: nth_append)
    with e have "dem_path ! ?n = CHR ''_''" by simp
    moreover from True have "dem_path ! ?n = CHR ''.''" by (intro stem_ends_at_dot) simp
    ultimately show False by simp
  qed
qed

lemma reproject_dem_sibling:
  assumes "reproject_dem e dem_path target_epsg w = Some w'"
  shows "files w' dem_path = files w dem_path \<and>
         (\<exists>w''. reproject_dem e dem_path target_epsg w' = Some w'' \<and> files w'' = files w')"
proof -
  from assms obtain src out where s: "files w dem_path = Some src" and o: "reproject e src target_epsg = Some out"
    and w': "w' = logger INFO ''DEM reproyectado guardado: {name}'' [reprojected_name dem_path target_epsg]
                    (write_bytes (reprojected_name dem_path target_epsg) out w)"
    by (auto simp: reproject_dem_def split: option.splits)
  from w' reprojected_name_differs [of dem_path target_epsg]
  have k: "files w' dem_path = files w dem_path" by auto
  with s o w' have "reproject_dem e dem_path target_epsg w' =
      Some (logger INFO ''DEM reproyectado guardado: {name}'' [reprojected_name dem_path target_epsg]
                    (write_bytes (reprojected_name dem_path target_epsg) out w'))"
    by (simp add: reproject_dem_def)
  moreover have "files (write_bytes (reprojected_name dem_path target_epsg) out w') = files w'"
    using w' by auto
  ultimately show ?thesis using k by simp
qed

end
